theory Spec2Isabelle
  imports Main "HOL-Library.AList"
begin

section \<open>Game service: data model\<close>

text \<open>
  The game logic lives in class \<open>GameService\<close>. A board is an array of row arrays whose
  cells hold \<open>null\<close> or one of the two player keys \<open>'player1'\<close> and \<open>'player2'\<close>.
  Reading \<open>board[x][y]\<close> in JavaScript gives \<open>undefined\<close> when the row is too short and
  throws a \<open>TypeError\<close> when the row itself is missing; both outcomes are part of the model.
\<close>

datatype player_key = player1 | player2

type_synonym cell = "player_key option"

type_synonym board = "cell list list"

datatype js_error = TypeError | Error string

datatype jsval = Undefined | Null | Key player_key

definition BOARD_SIZE :: nat where
  "BOARD_SIZE = 3"

definition cell_at :: "board \<Rightarrow> nat \<Rightarrow> nat \<Rightarrow> js_error + jsval" where
  "cell_at b x y =
     (if x < length b
      then (if y < length (b ! x)
            then (case b ! x ! y of None \<Rightarrow> Inr Null | Some k \<Rightarrow> Inr (Key k))
            else Inr Undefined)
      else Inl TypeError)"

text \<open>
  A coordinate is whatever value the caller passes: \<open>Whole i\<close> is a number for which
  \<open>Number.isInteger\<close> holds, \<open>NotInteger\<close> any other value (a fraction, \<open>NaN\<close>, a string).
\<close>

datatype coord = Whole int | NotInteger

record player =
  player_id :: string
  player_name :: "string option"
  character :: "string option"
  symbol :: "string option"

record move =
  move_playerId :: string
  playerKey :: player_key
  move_x :: coord
  move_y :: coord
  timestamp :: int
  moveNumber :: nat

record game_state =
  game_id :: string
  roomId :: string
  board :: board
  players :: "player_key \<Rightarrow> player option"
  currentPlayer :: player_key
  status :: string
  winner :: "string option"
  moveHistory :: "move list"
  createdAt :: int
  startedAt :: "int option"
  lastMoveAt :: "int option"
  finishedAt :: "int option"

type_synonym pos = "nat \<times> nat"

type_synonym combination = "pos \<times> pos \<times> pos"

definition WINNING_COMBINATIONS :: "combination list" where
  "WINNING_COMBINATIONS =
     [((0, 0), (0, 1), (0, 2)),
      ((1, 0), (1, 1), (1, 2)),
      ((2, 0), (2, 1), (2, 2)),
      ((0, 0), (1, 0), (2, 0)),
      ((0, 1), (1, 1), (2, 1)),
      ((0, 2), (1, 2), (2, 2)),
      ((0, 0), (1, 1), (2, 2)),
      ((0, 2), (1, 1), (2, 0))]"

section \<open>Game service: operations\<close>

text \<open>\<open>createEmptyBoard\<close>: three fresh rows of three \<open>null\<close> cells.\<close>

definition createEmptyBoard :: board where
  "createEmptyBoard = replicate BOARD_SIZE (replicate BOARD_SIZE None)"

text \<open>
  \<open>createGame(roomId, players)\<close>; the identifier from \<open>uuidv4()\<close> and the reading of the
  clock are inputs of the model. The entries of \<open>players\<close> carry an id and a name.
\<close>

definition createGame :: "string \<Rightarrow> (string \<times> string) list \<Rightarrow> string \<Rightarrow> int \<Rightarrow> js_error + game_state" where
  "createGame rid ps uuid now =
     (if length ps \<noteq> 2 then Inl (Error ''Game requires exactly 2 players'')
      else Inr \<lparr> game_id = uuid, roomId = rid, board = createEmptyBoard,
                 players = (\<lambda>k. case k of
                     player1 \<Rightarrow> Some \<lparr> player_id = fst (ps ! 0), player_name = Some (snd (ps ! 0)),
                                       character = Some ''fire_warrior'', symbol = Some ''X'' \<rparr>
                   | player2 \<Rightarrow> Some \<lparr> player_id = fst (ps ! 1), player_name = Some (snd (ps ! 1)),
                                       character = Some ''ice_guardian'', symbol = Some ''O'' \<rparr>),
                 currentPlayer = player1, status = ''playing'', winner = None,
                 moveHistory = [], createdAt = now, startedAt = Some now,
                 lastMoveAt = Some now, finishedAt = None \<rparr>)"

text \<open>\<open>isValidCoordinate(x, y)\<close>: both values are integers and lie in \<open>0 .. BOARD_SIZE - 1\<close>.\<close>

fun isValidCoordinate :: "coord \<Rightarrow> coord \<Rightarrow> bool" where
  "isValidCoordinate (Whole x) (Whole y) =
     (x \<ge> 0 \<and> x < int BOARD_SIZE \<and> y \<ge> 0 \<and> y < int BOARD_SIZE)"
| "isValidCoordinate _ _ = False"

text \<open>The array index a validated coordinate denotes.\<close>

fun index_of :: "coord \<Rightarrow> nat" where
  "index_of (Whole i) = nat i"
| "index_of NotInteger = 0"

datatype validation = Valid | Invalid string string

text \<open>
  Game states are objects, passed by reference. The heap is the list of allocated state
  objects and a reference is an index into it; \<open>JSON.parse(JSON.stringify(gameState))\<close>
  allocates a new object holding a structurally equal value that shares nothing with the
  original, which is why the nested arrays are kept by value inside one heap cell. A
  function that is handed a state object returns the heap as it leaves it.
\<close>

type_synonym ref = nat

type_synonym heap = "game_state list"

text \<open>
  \<open>validateMove(gameState, playerId, x, y)\<close>. The four checks run in the order of the
  source, and every \<open>return\<close> hands back the heap the call was given, since the source
  assigns to nothing. \<open>players[currentPlayer]?.id\<close> is \<open>undefined\<close> when the player entry
  is \<open>null\<close>, which no player id equals. Reading \<open>status\<close> off a reference that holds no
  object throws.
\<close>

definition validateMove ::
  "heap \<Rightarrow> ref \<Rightarrow> string \<Rightarrow> coord \<Rightarrow> coord \<Rightarrow> js_error + (validation \<times> heap)" where
  "validateMove h r playerId x y =
     (if \<not> r < length h then Inl TypeError
      else let gameState = h ! r in
        if status gameState \<noteq> ''playing''
        then Inr (Invalid ''GAME_NOT_ACTIVE'' ''Game is not currently active'', h)
        else let currentPlayerId = map_option player_id (players gameState (currentPlayer gameState)) in
          if Some playerId \<noteq> currentPlayerId
          then Inr (Invalid ''NOT_YOUR_TURN'' ''It is not your turn'', h)
          else if \<not> isValidCoordinate x y
          then Inr (Invalid ''INVALID_COORDINATES'' ''Invalid board coordinates'', h)
          else (case cell_at (board gameState) (index_of x) (index_of y) of
                  Inl e \<Rightarrow> Inl e
                | Inr c \<Rightarrow>
                    if c \<noteq> Null
                    then Inr (Invalid ''CELL_OCCUPIED'' ''Cell is already occupied'', h)
                    else Inr (Valid, h)))"

text \<open>
  \<open>checkWinner(board)\<close>: the loop over \<open>WINNING_COMBINATIONS\<close>, returning at the first
  combination whose first cell is truthy and equal to the other two.
\<close>

fun checkWinner_loop :: "board \<Rightarrow> combination list \<Rightarrow> js_error + player_key option" where
  "checkWinner_loop b [] = Inr None"
| "checkWinner_loop b ((pos1, pos2, pos3) # rest) =
     (case cell_at b (fst pos1) (snd pos1) of Inl e \<Rightarrow> Inl e | Inr cell1 \<Rightarrow>
     (case cell_at b (fst pos2) (snd pos2) of Inl e \<Rightarrow> Inl e | Inr cell2 \<Rightarrow>
     (case cell_at b (fst pos3) (snd pos3) of Inl e \<Rightarrow> Inl e | Inr cell3 \<Rightarrow>
        (case cell1 of
           Key k \<Rightarrow> (if cell1 = cell2 \<and> cell2 = cell3 then Inr (Some k)
                     else checkWinner_loop b rest)
         | _ \<Rightarrow> checkWinner_loop b rest))))"

definition checkWinner :: "board \<Rightarrow> js_error + player_key option" where
  "checkWinner b = checkWinner_loop b WINNING_COMBINATIONS"

text \<open>\<open>getWinningCombination(board)\<close>: the same loop, returning the combination itself.\<close>

fun getWinningCombination_loop :: "board \<Rightarrow> combination list \<Rightarrow> js_error + combination option" where
  "getWinningCombination_loop b [] = Inr None"
| "getWinningCombination_loop b ((pos1, pos2, pos3) # rest) =
     (case cell_at b (fst pos1) (snd pos1) of Inl e \<Rightarrow> Inl e | Inr cell1 \<Rightarrow>
     (case cell_at b (fst pos2) (snd pos2) of Inl e \<Rightarrow> Inl e | Inr cell2 \<Rightarrow>
     (case cell_at b (fst pos3) (snd pos3) of Inl e \<Rightarrow> Inl e | Inr cell3 \<Rightarrow>
        (case cell1 of
           Key k \<Rightarrow> (if cell1 = cell2 \<and> cell2 = cell3 then Inr (Some (pos1, pos2, pos3))
                     else getWinningCombination_loop b rest)
         | _ \<Rightarrow> getWinningCombination_loop b rest))))"

definition getWinningCombination :: "board \<Rightarrow> js_error + combination option" where
  "getWinningCombination b = getWinningCombination_loop b WINNING_COMBINATIONS"

text \<open>
  \<open>isBoardFull(board)\<close>: the two nested loops over \<open>0 .. BOARD_SIZE - 1\<close>, returning
  \<open>false\<close> at the first cell that is strictly equal to \<open>null\<close>.
\<close>

fun isBoardFull_row :: "board \<Rightarrow> nat \<Rightarrow> nat list \<Rightarrow> js_error + bool" where
  "isBoardFull_row b x [] = Inr True"
| "isBoardFull_row b x (y # ys) =
     (case cell_at b x y of
        Inl e \<Rightarrow> Inl e
      | Inr c \<Rightarrow> if c = Null then Inr False else isBoardFull_row b x ys)"

fun isBoardFull_rows :: "board \<Rightarrow> nat list \<Rightarrow> js_error + bool" where
  "isBoardFull_rows b [] = Inr True"
| "isBoardFull_rows b (x # xs) =
     (case isBoardFull_row b x [0..<BOARD_SIZE] of
        Inl e \<Rightarrow> Inl e
      | Inr full \<Rightarrow> if full then isBoardFull_rows b xs else Inr False)"

definition isBoardFull :: "board \<Rightarrow> js_error + bool" where
  "isBoardFull b = isBoardFull_rows b [0..<BOARD_SIZE]"

datatype move_result = Failure string string | Success ref

definition other_player :: "player_key \<Rightarrow> player_key" where
  "other_player k = (if k = player1 then player2 else player1)"

text \<open>
  \<open>makeMove(gameState, playerId, x, y)\<close>. The three readings of \<open>Date.now()\<close> are the inputs
  \<open>t_last\<close>, \<open>t_move\<close> and \<open>t_end\<close>. Every assignment of the source goes to the copy
  \<open>newGameState\<close>, which is stored at a fresh reference, the length of the heap.
\<close>

definition makeMove ::
  "heap \<Rightarrow> ref \<Rightarrow> string \<Rightarrow> coord \<Rightarrow> coord \<Rightarrow> int \<Rightarrow> int \<Rightarrow> int \<Rightarrow> js_error + (move_result \<times> heap)" where
  "makeMove h r playerId x y t_last t_move t_end =
     (case validateMove h r playerId x y of
        Inl e \<Rightarrow> Inl e
      | Inr (Invalid reason message, h0) \<Rightarrow> Inr (Failure reason message, h0)
      | Inr (Valid, h0) \<Rightarrow>
         (let gameState = h0 ! r;
              newGameState = gameState;
              currentPlayerKey = currentPlayer newGameState in
          case players newGameState currentPlayerKey of
            None \<Rightarrow> Inl TypeError
          | Some p \<Rightarrow>
             (let playerSymbol = symbol p;
                  new_ref = length h0;
                  b1 = (board newGameState)
                         [index_of x := (board newGameState ! index_of x)
                                           [index_of y := Some currentPlayerKey]];
                  s1 = newGameState \<lparr> board := b1, lastMoveAt := Some t_last \<rparr>;
                  s2 = s1 \<lparr> moveHistory := moveHistory s1 @
                            [\<lparr> move_playerId = playerId, playerKey = currentPlayerKey,
                               move_x = x, move_y = y, timestamp = t_move,
                               moveNumber = length (moveHistory s1) + 1 \<rparr>] \<rparr>
              in case checkWinner (board s2) of
                   Inl e \<Rightarrow> Inl e
                 | Inr (Some w) \<Rightarrow>
                     (case players s2 w of
                        None \<Rightarrow> Inl TypeError
                      | Some wp \<Rightarrow>
                          Inr (Success new_ref,
                               h0 @ [s2 \<lparr> status := ''finished'', winner := Some (player_id wp),
                                          finishedAt := Some t_end \<rparr>]))
                 | Inr None \<Rightarrow>
                     (case isBoardFull (board s2) of
                        Inl e \<Rightarrow> Inl e
                      | Inr True \<Rightarrow>
                          Inr (Success new_ref,
                               h0 @ [s2 \<lparr> status := ''draw'', finishedAt := Some t_end \<rparr>])
                      | Inr False \<Rightarrow>
                          Inr (Success new_ref,
                               h0 @ [s2 \<lparr> currentPlayer := other_player currentPlayerKey \<rparr>])))))"

section \<open>Game controller: stored games\<close>

text \<open>
  \<open>GameController\<close> keeps the games in play in a \<open>Map\<close> and a copy of each in the table
  \<open>games\<close>. \<open>saveGameToDatabase\<close> writes the row of a state (\<open>INSERT OR REPLACE\<close>) after
  \<open>createGame\<close> and after every accepted move; \<open>loadGameFromDatabase\<close> builds a state from
  the row of a room when the \<open>Map\<close> no longer holds the game. Board and moves are stored as
  JSON text, which parses back to the value written, and the creation time as an ISO
  string, which reads back as the same number.
\<close>

record game_row =
  games_id :: string
  games_room_id :: string
  games_player1_id :: string
  games_player2_id :: "string option"
  games_winner_id :: "string option"
  games_status :: string
  games_board :: "board option"
  games_moves :: "move list option"
  games_created_at :: int
  games_started_at :: "int option"
  games_finished_at :: "int option"

text \<open>
  The row \<open>saveGameToDatabase(gameState)\<close> writes at time \<open>now\<close>. Column \<open>player1_id\<close> is
  declared \<open>NOT NULL\<close>, so a state without a first player writes no row. \<open>startedAt\<close> is
  stored when it is truthy.
\<close>

definition saveGameToDatabase :: "game_state \<Rightarrow> int \<Rightarrow> game_row option" where
  "saveGameToDatabase gameState now =
     (case players gameState player1 of
        None \<Rightarrow> None
      | Some p1 \<Rightarrow>
          Some \<lparr> games_id = game_id gameState, games_room_id = roomId gameState,
                 games_player1_id = player_id p1,
                 games_player2_id = map_option player_id (players gameState player2),
                 games_winner_id = winner gameState, games_status = status gameState,
                 games_board = Some (board gameState),
                 games_moves = Some (moveHistory gameState),
                 games_created_at = createdAt gameState,
                 games_started_at =
                   (case startedAt gameState of
                      None \<Rightarrow> None
                    | Some t \<Rightarrow> if t \<noteq> 0 then Some t else None),
                 games_finished_at =
                   (if status gameState = ''finished'' \<or> status gameState = ''draw''
                    then Some now else None) \<rparr>)"

text \<open>
  \<open>loadGameFromDatabase(roomId)\<close> on the rows \<open>games\<close> of the table: the first row of the
  room whose status is \<open>waiting\<close> or \<open>playing\<close>. The players come back with their ids
  only, the current player is set to \<open>player1\<close>, and \<open>lastMoveAt\<close> and \<open>finishedAt\<close> are
  not set.
\<close>

definition select_game :: "game_row list \<Rightarrow> string \<Rightarrow> game_row option" where
  "select_game games rid =
     find (\<lambda>row. games_room_id row = rid
                  \<and> (games_status row = ''waiting'' \<or> games_status row = ''playing'')) games"

definition loadGameFromDatabase :: "game_row list \<Rightarrow> string \<Rightarrow> game_state option" where
  "loadGameFromDatabase games rid =
     (case select_game games rid of
        None \<Rightarrow> None
      | Some gameData \<Rightarrow>
          Some \<lparr> game_id = games_id gameData, roomId = games_room_id gameData,
                 board = (case games_board gameData of
                            Some b \<Rightarrow> b
                          | None \<Rightarrow> [[None, None, None], [None, None, None], [None, None, None]]),
                 players = (\<lambda>k. case k of
                     player1 \<Rightarrow> Some \<lparr> player_id = games_player1_id gameData, player_name = None,
                                       character = None, symbol = None \<rparr>
                   | player2 \<Rightarrow>
                       (case games_player2_id gameData of
                          None \<Rightarrow> None
                        | Some i \<Rightarrow> if i \<noteq> [] then Some \<lparr> player_id = i, player_name = None,
                                                            character = None, symbol = None \<rparr>
                                    else None)),
                 currentPlayer = player1, status = games_status gameData,
                 winner = games_winner_id gameData,
                 moveHistory = (case games_moves gameData of Some ms \<Rightarrow> ms | None \<Rightarrow> []),
                 createdAt = games_created_at gameData,
                 startedAt = games_started_at gameData,
                 lastMoveAt = None, finishedAt = None \<rparr>)"

section \<open>Validation middleware: chat sanitizer\<close>

text \<open>
  \<open>sanitizeChatMessage(message)\<close> works on a JavaScript string. The model takes the
  string as a list of code units below 256; any value that is not a string is \<open>NotString\<close>.
\<close>

datatype js_message = JString string | NotString

text \<open>
  \<open>message.replace(/<[^>]*>/g, '')\<close>. A match starts at a \<open><\<close> that has a \<open>>\<close> somewhere
  after it and ends at the first such \<open>>\<close>; the scan then goes on behind the match.
\<close>

fun strip_tags :: "string \<Rightarrow> string" and skip_tag :: "string \<Rightarrow> string" where
  "strip_tags [] = []"
| "strip_tags (c # cs) =
     (if c = CHR ''<'' \<and> CHR ''>'' \<in> set cs then skip_tag cs else c # strip_tags cs)"
| "skip_tag [] = []"
| "skip_tag (c # cs) = (if c = CHR ''>'' then strip_tags cs else skip_tag cs)"

text \<open>
  The second pattern, \<open>/<script\b[^<]*(?:(?!<\/script>)<[^<]*)*<\/script>/gi\<close>. The flag
  \<open>i\<close> folds the case of the ASCII letters. A match starts with \<open><script\<close> followed by a
  word boundary, that is by a character outside \<open>[A-Za-z0-9_]\<close>; the rest of the pattern
  consumes everything up to and including the first \<open></script>\<close> behind it, and fails when
  there is none. \<open>script_match\<close> gives the length of the match at the start of a string.
\<close>

definition to_lower :: "char \<Rightarrow> char" where
  "to_lower c =
     (case map_of (zip ''ABCDEFGHIJKLMNOPQRSTUVWXYZ'' ''abcdefghijklmnopqrstuvwxyz'') c of
        Some d \<Rightarrow> d
      | None \<Rightarrow> c)"

definition is_word_char :: "char \<Rightarrow> bool" where
  "is_word_char c =
     (c \<in> set ''ABCDEFGHIJKLMNOPQRSTUVWXYZabcdefghijklmnopqrstuvwxyz0123456789_'')"

fun starts_with_ci :: "string \<Rightarrow> string \<Rightarrow> bool" where
  "starts_with_ci [] s = True"
| "starts_with_ci (p # ps) [] = False"
| "starts_with_ci (p # ps) (c # cs) = (to_lower c = p \<and> starts_with_ci ps cs)"

fun close_tag_end :: "string \<Rightarrow> nat option" where
  "close_tag_end [] = None"
| "close_tag_end (c # cs) =
     (if starts_with_ci ''</script>'' (c # cs) then Some 9
      else map_option Suc (close_tag_end cs))"

definition script_match :: "string \<Rightarrow> nat option" where
  "script_match s =
     (if starts_with_ci ''<script'' s
         \<and> (case drop 7 s of [] \<Rightarrow> True | c # _ \<Rightarrow> \<not> is_word_char c)
      then map_option (\<lambda>n. 7 + n) (close_tag_end (drop 7 s))
      else None)"

text \<open>
  The global replacement by the empty string: \<open>remove_scripts n s\<close> first drops the \<open>n\<close>
  characters that remain of the current match, then looks for the next match.
\<close>

fun remove_scripts :: "nat \<Rightarrow> string \<Rightarrow> string" where
  "remove_scripts n [] = []"
| "remove_scripts (Suc n) (c # cs) = remove_scripts n cs"
| "remove_scripts 0 (c # cs) =
     (case script_match (c # cs) of
        Some len \<Rightarrow> remove_scripts (len - 1) cs
      | None \<Rightarrow> c # remove_scripts 0 cs)"

text \<open>One \<open>.replace(/c/g, r)\<close> of the escaping chain, and the chain in the order of the source.\<close>

definition replace_char :: "char \<Rightarrow> string \<Rightarrow> string \<Rightarrow> string" where
  "replace_char c r s = concat (map (\<lambda>d. if d = c then r else [d]) s)"

definition escape_special :: "string \<Rightarrow> string" where
  "escape_special s =
     replace_char (CHR ''/'') ''&#x2F;''
       (replace_char (CHR 0x27) ''&#x27;''
         (replace_char (CHR 0x22) ''&quot;''
           (replace_char (CHR ''>'') ''&gt;''
             (replace_char (CHR ''<'') ''&lt;''
               (replace_char (CHR ''&'') ''&amp;'' s)))))"

text \<open>
  \<open>String.prototype.trim\<close> removes white space and line terminators at both ends; below
  256 these are the code units 9 to 13, 32 and 160.
\<close>

definition is_space :: "char \<Rightarrow> bool" where
  "is_space c = (c \<in> set [CHR 0x09, CHR 0x0A, CHR 0x0B, CHR 0x0C, CHR 0x0D, CHR 0x20, CHR 0xA0])"

definition trim :: "string \<Rightarrow> string" where
  "trim s = rev (dropWhile is_space (rev (dropWhile is_space s)))"

definition sanitizeChatMessage :: "js_message \<Rightarrow> string" where
  "sanitizeChatMessage message =
     (case message of
        NotString \<Rightarrow> []
      | JString m \<Rightarrow>
          (let sanitized = strip_tags m;
               sanitized = remove_scripts 0 sanitized;
               sanitized = escape_special sanitized;
               sanitized = (if length sanitized > 200 then take 200 sanitized else sanitized)
           in trim sanitized))"

section \<open>Socket rate limiter\<close>

text \<open>
  Class \<open>SocketRateLimiter\<close>: a \<open>Map\<close> from socket id to client data, and two plain
  objects holding the limits per event type.
\<close>

record rl_event =
  event_type :: string
  event_timestamp :: int

record client_data =
  events :: "rl_event list"
  lastSeen :: int
  warnings :: nat

record rate_limiter =
  clients :: "(string \<times> client_data) list"
  limits :: "(string \<times> int) list"
  burstLimits :: "(string \<times> int) list"

text \<open>The limiter as the constructor leaves it.\<close>

definition new_SocketRateLimiter :: rate_limiter where
  "new_SocketRateLimiter =
     \<lparr> clients = [],
       limits = [(''make-move'', 30), (''chat-message'', 20), (''join-room'', 10),
                 (''create-room'', 5), (''leave-room'', 10), (''spectate-game'', 10),
                 (''get-room-list'', 30), (''default'', 60)],
       burstLimits = [(''make-move'', 10), (''chat-message'', 5), (''join-room'', 3),
                      (''create-room'', 2), (''default'', 20)] \<rparr>"

text \<open>
  \<open>this.limits[eventType]\<close> is a property read on an object literal. It yields the number
  stored under that name; for a name the object does not hold itself it yields the member
  of that name inherited from \<open>Object.prototype\<close> (a function, or the prototype object for
  \<open>__proto__\<close>), and \<open>undefined\<close> when there is none either.
\<close>

datatype js_limit = Num int | Inherited | Missing

definition Object_prototype_properties :: "string list" where
  "Object_prototype_properties =
     [''constructor'', ''toString'', ''toLocaleString'', ''valueOf'', ''hasOwnProperty'',
      ''isPrototypeOf'', ''propertyIsEnumerable'', ''__proto__'', ''__defineGetter__'',
      ''__defineSetter__'', ''__lookupGetter__'', ''__lookupSetter__'']"

definition property :: "(string \<times> int) list \<Rightarrow> string \<Rightarrow> js_limit" where
  "property obj key =
     (case map_of obj key of
        Some n \<Rightarrow> Num n
      | None \<Rightarrow> if key \<in> set Object_prototype_properties then Inherited else Missing)"

text \<open>
  \<open>a || b\<close> is \<open>a\<close> unless \<open>a\<close> is falsy (\<open>0\<close> or \<open>undefined\<close>); \<open>count >= limit\<close> converts
  the limit to a number, which is \<open>NaN\<close> for a function, an object and \<open>undefined\<close>, and every
  comparison with \<open>NaN\<close> is false.
\<close>

definition js_or :: "js_limit \<Rightarrow> js_limit \<Rightarrow> js_limit" where
  "js_or a b = (case a of Num n \<Rightarrow> (if n = 0 then b else a) | Inherited \<Rightarrow> a | Missing \<Rightarrow> b)"

definition count_reaches :: "nat \<Rightarrow> js_limit \<Rightarrow> bool" where
  "count_reaches n limit = (case limit of Num l \<Rightarrow> int n \<ge> l | _ \<Rightarrow> False)"

text \<open>
  \<open>handleRateLimit\<close>: the warning counter of the stored client data goes up by one; a
  client that is not in the map is left out. Logging is not modelled.
\<close>

definition handleRateLimit :: "rate_limiter \<Rightarrow> string \<Rightarrow> rate_limiter" where
  "handleRateLimit rl socketId =
     (case map_of (clients rl) socketId of
        None \<Rightarrow> rl
      | Some clientData \<Rightarrow>
          rl \<lparr> clients := AList.update socketId
                  (clientData \<lparr> warnings := warnings clientData + 1 \<rparr>) (clients rl) \<rparr>)"

text \<open>
  \<open>checkLimit(socketId, eventType)\<close> with the reading \<open>now\<close> of the clock. The client data
  of a known client is the object held by the map, so the update of \<open>lastSeen\<close> and the
  pruning of \<open>events\<close> reach the map even when the event is rejected; the data made up for
  an unknown client reaches the map only through the final \<open>set\<close>.
\<close>

definition checkLimit :: "rate_limiter \<Rightarrow> string \<Rightarrow> string \<Rightarrow> int \<Rightarrow> bool \<times> rate_limiter" where
  "checkLimit rl socketId eventType now =
     (let known = map_of (clients rl) socketId;
          clientData = (case known of
                          Some d \<Rightarrow> d
                        | None \<Rightarrow> \<lparr> events = [], lastSeen = now, warnings = 0 \<rparr>);
          clientData = clientData \<lparr> lastSeen := now \<rparr>;
          clientData = clientData \<lparr> events :=
                         filter (\<lambda>event. now - event_timestamp event < 60000) (events clientData) \<rparr>;
          rl1 = (if known = None then rl
                 else rl \<lparr> clients := AList.update socketId clientData (clients rl) \<rparr>);
          minuteLimit = js_or (property (limits rl) eventType) (property (limits rl) ''default'');
          burstLimit = js_or (property (burstLimits rl) eventType)
                             (property (burstLimits rl) ''default'');
          eventsInMinute = length (filter (\<lambda>event. event_type event = eventType)
                                     (events clientData));
          eventsInBurst = length (filter (\<lambda>event. event_type event = eventType
                                              \<and> now - event_timestamp event < 10000)
                                    (events clientData))
      in if count_reaches eventsInMinute minuteLimit then (False, handleRateLimit rl1 socketId)
         else if count_reaches eventsInBurst burstLimit then (False, handleRateLimit rl1 socketId)
         else (True,
               rl1 \<lparr> clients := AList.update socketId
                       (clientData \<lparr> events := events clientData @
                            [\<lparr> event_type = eventType, event_timestamp = now \<rparr>] \<rparr>)
                       (clients rl1) \<rparr>))"

text \<open>\<open>flood n\<close>: \<open>n\<close> events of one type from one socket at the same instant, with their verdicts.\<close>

fun flood :: "nat \<Rightarrow> rate_limiter \<Rightarrow> string \<Rightarrow> string \<Rightarrow> int \<Rightarrow> bool list \<times> rate_limiter" where
  "flood 0 rl socketId eventType now = ([], rl)"
| "flood (Suc n) rl socketId eventType now =
     (let (ok, rl1) = checkLimit rl socketId eventType now;
          (oks, rl2) = flood n rl1 socketId eventType now
      in (ok # oks, rl2))"

section \<open>Room controller\<close>

text \<open>
  Class \<open>RoomController\<close> keeps two \<open>Map\<close>s, \<open>activeRooms\<close> from room id to room object and
  \<open>playerRooms\<close> from player id to room id. A \<open>Map\<close> is an association list in insertion
  order: \<open>set\<close> is \<open>AList.update\<close>, \<open>delete\<close> is \<open>AList.delete\<close>, \<open>get\<close> is \<open>map_of\<close> and
  \<open>size\<close> is the length. Room objects are reached only through \<open>activeRooms\<close>, so a
  mutation of a room is an update of its entry. The rows of the \<open>rooms\<close> and
  \<open>chat_messages\<close> tables and the events handed to socket.io are part of the state.
\<close>

record room_player =
  rp_id :: string
  rp_name :: string
  rp_socketId :: string
  joinedAt :: int
  isReady :: bool

record spectator =
  spectator_id :: string
  spectator_socketId :: string
  spectator_joinedAt :: int

record chat_message =
  chat_id :: string
  chat_playerId :: string
  chat_playerName :: string
  chat_text :: string
  chat_timestamp :: int
  chat_roomId :: string

record room =
  room_id :: string
  room_name :: string
  isPrivate :: bool
  password :: "string option"
  maxPlayers :: int
  currentPlayers :: nat
  room_status :: string
  createdBy :: string
  room_createdAt :: int
  room_players :: "(string \<times> room_player) list"
  spectators :: "(string \<times> spectator) list"
  chatHistory :: "chat_message list"

record room_row =
  row_name :: string
  row_is_private :: bool
  row_password :: "string option"
  row_max_players :: int
  row_current_players :: nat
  row_status :: string
  row_created_by :: string
  row_created_at :: int

text \<open>
  The fields of a socket that the controller reads and writes; \<open>joined\<close> lists the
  socket.io rooms the socket is in.
\<close>

record socket =
  socket_id :: string
  playerId :: "string option"
  playerName :: "string option"
  socket_roomId :: "string option"
  isSpectator :: bool
  joined :: "string list"

datatype target = ToSocket string | ToRoom string | ToAll

text \<open>
  The payload of an emitted event, cut down to the fields that identify it: an error code;
  player id, player name and member count of \<open>player-left\<close>; player id, member count and
  capacity of \<open>player-joined\<close>; room id and member count of \<open>room-created\<close> and
  \<open>room-joined\<close>; the ids of the listed rooms; sender and text of a chat message; the
  player ids of \<open>game-started\<close>; room id and spectator count of \<open>spectating-started\<close>.
\<close>

datatype payload =
    Code string
  | PlayerLeft string "string option" nat
  | PlayerJoined string nat int
  | RoomInfo string nat
  | RoomList "string list"
  | Chat string string
  | GameStarted "string list"
  | Spectating string nat

type_synonym emission = "target \<times> string \<times> payload"

record room_controller =
  activeRooms :: "(string \<times> room) list"
  playerRooms :: "(string \<times> string) list"
  db_rooms :: "(string \<times> room_row) list"
  db_chat_messages :: "chat_message list"
  emitted :: "emission list"

text \<open>
  What a call draws from its surroundings: the clock, the identifier \<open>uuidv4()\<close> returns,
  the results of \<open>bcrypt.hash\<close> and \<open>bcrypt.compare\<close>, and whether the storage calls of
  this call succeed (each of them is wrapped in \<open>try\<close>/\<open>catch\<close> and only logs a failure).
\<close>

record env =
  env_now :: int
  env_uuid :: string
  env_hashed :: string
  env_password_ok :: bool
  env_db_up :: bool

text \<open>Truthiness of an optional string: \<open>undefined\<close>, \<open>null\<close> and \<open>''\<close> are falsy.\<close>

definition truthy :: "string option \<Rightarrow> bool" where
  "truthy v = (case v of None \<Rightarrow> False | Some s \<Rightarrow> s \<noteq> [])"

text \<open>\<open>socket.playerId || socket.id\<close>.\<close>

definition player_id_of :: "socket \<Rightarrow> string" where
  "player_id_of sock = (if truthy (playerId sock) then the (playerId sock) else socket_id sock)"

text \<open>\<open>socket.playerName || `Player_${socket.id.substring(0, 6)}`\<close>.\<close>

definition player_name_of :: "socket \<Rightarrow> string" where
  "player_name_of sock =
     (if truthy (playerName sock) then the (playerName sock)
      else ''Player_'' @ take 6 (socket_id sock))"

definition emit :: "emission \<Rightarrow> room_controller \<Rightarrow> room_controller" where
  "emit ev st = st \<lparr> emitted := emitted st @ [ev] \<rparr>"

definition room_error :: "socket \<Rightarrow> string \<Rightarrow> room_controller \<Rightarrow> room_controller" where
  "room_error sock code st = emit (ToSocket (socket_id sock), ''room-error'', Code code) st"

subsection \<open>Storage\<close>

definition row_of :: "room \<Rightarrow> room_row" where
  "row_of r =
     \<lparr> row_name = room_name r, row_is_private = isPrivate r, row_password = password r,
       row_max_players = maxPlayers r, row_current_players = currentPlayers r,
       row_status = room_status r, row_created_by = createdBy r,
       row_created_at = room_createdAt r \<rparr>"

definition saveRoomToDatabase :: "env \<Rightarrow> room \<Rightarrow> room_controller \<Rightarrow> room_controller" where
  "saveRoomToDatabase e r st =
     (if env_db_up e then st \<lparr> db_rooms := AList.update (room_id r) (row_of r) (db_rooms st) \<rparr>
      else st)"

definition loadRoomFromDatabase :: "env \<Rightarrow> string \<Rightarrow> room_controller \<Rightarrow> room option" where
  "loadRoomFromDatabase e rid st =
     (if \<not> env_db_up e then None
      else case map_of (db_rooms st) rid of
        None \<Rightarrow> None
      | Some roomData \<Rightarrow>
          Some \<lparr> room_id = rid, room_name = row_name roomData,
                 isPrivate = row_is_private roomData, password = row_password roomData,
                 maxPlayers = row_max_players roomData, currentPlayers = 0,
                 room_status = row_status roomData, createdBy = row_created_by roomData,
                 room_createdAt = row_created_at roomData, room_players = [],
                 spectators = [], chatHistory = [] \<rparr>)"

definition deleteRoomFromDatabase :: "env \<Rightarrow> string \<Rightarrow> room_controller \<Rightarrow> room_controller" where
  "deleteRoomFromDatabase e rid st =
     (if env_db_up e then st \<lparr> db_rooms := AList.delete rid (db_rooms st) \<rparr> else st)"

definition saveChatMessageToDatabase :: "env \<Rightarrow> chat_message \<Rightarrow> room_controller \<Rightarrow> room_controller" where
  "saveChatMessageToDatabase e m st =
     (if env_db_up e then st \<lparr> db_chat_messages := db_chat_messages st @ [m] \<rparr> else st)"

subsection \<open>Operations\<close>

text \<open>\<open>broadcastRoomListUpdate()\<close>: the public rooms that are waiting, to every client.\<close>

definition broadcastRoomListUpdate :: "room_controller \<Rightarrow> room_controller" where
  "broadcastRoomListUpdate st =
     emit (ToAll, ''room-list-update'',
           RoomList (map fst (filter (\<lambda>(rid, r). \<not> isPrivate r \<and> room_status r = ''waiting'')
                                     (activeRooms st)))) st"

text \<open>
  \<open>createRoom(socket, data)\<close> with the fields \<open>roomName\<close>, \<open>isPrivate\<close>, \<open>password\<close> and
  \<open>maxPlayers\<close> of \<open>data\<close>; a field that is absent is \<open>None\<close> and takes the default of the
  destructuring.
\<close>

definition createRoom ::
  "env \<Rightarrow> room_controller \<Rightarrow> socket \<Rightarrow> string \<Rightarrow> bool option \<Rightarrow> string option \<Rightarrow> int option
     \<Rightarrow> room_controller \<times> socket" where
  "createRoom e st sock roomName isPrivate_opt pw maxPlayers_opt =
     (let isPrivate_v = (case isPrivate_opt of None \<Rightarrow> False | Some b \<Rightarrow> b);
          maxPlayers_v = (case maxPlayers_opt of None \<Rightarrow> 2 | Some m \<Rightarrow> m);
          pid = player_id_of sock;
          pname = player_name_of sock;
          rid = env_uuid e;
          hashedPassword = (if truthy pw then Some (env_hashed e) else None);
          r = \<lparr> room_id = rid, room_name = roomName, isPrivate = isPrivate_v,
                password = hashedPassword, maxPlayers = maxPlayers_v, currentPlayers = 1,
                room_status = ''waiting'', createdBy = pid, room_createdAt = env_now e,
                room_players = [(pid, \<lparr> rp_id = pid, rp_name = pname,
                                         rp_socketId = socket_id sock, joinedAt = env_now e,
                                         isReady = False \<rparr>)],
                spectators = [], chatHistory = [] \<rparr>;
          st1 = st \<lparr> activeRooms := AList.update rid r (activeRooms st),
                     playerRooms := AList.update pid rid (playerRooms st) \<rparr>;
          st2 = saveRoomToDatabase e r st1;
          sock1 = sock \<lparr> joined := rid # joined sock, playerId := Some pid,
                         playerName := Some pname, socket_roomId := Some rid \<rparr>;
          st3 = emit (ToSocket (socket_id sock), ''room-created'', RoomInfo rid 1) st2
      in (broadcastRoomListUpdate st3, sock1))"

text \<open>
  \<open>leaveRoom(socket, data)\<close> with \<open>data.roomId\<close>. The only guard is the one for a room
  that is not active.
\<close>

definition leaveRoom :: "env \<Rightarrow> room_controller \<Rightarrow> socket \<Rightarrow> string \<Rightarrow> room_controller \<times> socket" where
  "leaveRoom e st sock rid =
     (let pid = player_id_of sock in
      case map_of (activeRooms st) rid of
        None \<Rightarrow> (st, sock)
      | Some r \<Rightarrow>
         (let ps = AList.delete pid (room_players r);
              r1 = r \<lparr> room_players := ps, currentPlayers := length ps \<rparr>;
              st1 = st \<lparr> activeRooms := AList.update rid r1 (activeRooms st),
                         playerRooms := AList.delete pid (playerRooms st) \<rparr>;
              sock1 = sock \<lparr> joined := removeAll rid (joined sock) \<rparr>;
              st2 = emit (ToRoom rid, ''player-left'',
                          PlayerLeft pid (playerName sock) (currentPlayers r1)) st1;
              st3 = (if currentPlayers r1 = 0
                     then deleteRoomFromDatabase e rid
                            (st2 \<lparr> activeRooms := AList.delete rid (activeRooms st2) \<rparr>)
                     else saveRoomToDatabase e r1 st2)
          in (broadcastRoomListUpdate st3, sock1)))"

text \<open>
  \<open>checkGameStart(room)\<close>. The game itself is created and stored by a \<open>GameController\<close>
  made on the spot; of \<open>startGame\<close> the room controller sees the exception it throws when
  the room does not hold two players or the game cannot be stored, and the
  \<open>game-started\<close> event. The first component tells whether the call threw.
\<close>

definition checkGameStart :: "env \<Rightarrow> room_controller \<Rightarrow> string \<Rightarrow> room \<Rightarrow> bool \<times> room_controller" where
  "checkGameStart e st rid r =
     (if currentPlayers r = 2 \<and> room_status r = ''waiting''
      then (let r1 = r \<lparr> room_status := ''playing'' \<rparr>;
                st1 = st \<lparr> activeRooms := AList.update rid r1 (activeRooms st) \<rparr>
            in if length (room_players r1) \<noteq> 2 \<or> \<not> env_db_up e then (True, st1)
               else (False,
                     saveRoomToDatabase e r1
                       (emit (ToRoom rid, ''game-started'',
                              GameStarted (map fst (room_players r1))) st1)))
      else (False, st))"

text \<open>\<open>joinRoom(socket, data)\<close> with the fields \<open>roomId\<close>, \<open>playerName\<close> and \<open>password\<close> of \<open>data\<close>.\<close>

definition joinRoom ::
  "env \<Rightarrow> room_controller \<Rightarrow> socket \<Rightarrow> string \<Rightarrow> string \<Rightarrow> string option
     \<Rightarrow> room_controller \<times> socket" where
  "joinRoom e st sock rid pname pw =
     (let pid = player_id_of sock;
          found = (case map_of (activeRooms st) rid of
                     Some r \<Rightarrow> Some (r, st)
                   | None \<Rightarrow>
                      (case loadRoomFromDatabase e rid st of
                         None \<Rightarrow> None
                       | Some r \<Rightarrow>
                           Some (r, st \<lparr> activeRooms := AList.update rid r (activeRooms st) \<rparr>)))
      in case found of
        None \<Rightarrow> (room_error sock ''ROOM_NOT_FOUND'' st, sock)
      | Some (r, st1) \<Rightarrow>
          if int (currentPlayers r) \<ge> maxPlayers r
          then (room_error sock ''ROOM_FULL'' st1, sock)
          else if isPrivate r \<and> truthy (password r) \<and> \<not> truthy pw
          then (room_error sock ''PASSWORD_REQUIRED'' st1, sock)
          else if isPrivate r \<and> truthy (password r) \<and> \<not> env_password_ok e
          then (room_error sock ''INVALID_PASSWORD'' st1, sock)
          else
           (case (case map_of (playerRooms st1) pid of
                    None \<Rightarrow> (st1, sock)
                  | Some currentRoom \<Rightarrow>
                      if currentRoom \<noteq> [] \<and> currentRoom \<noteq> rid
                      then leaveRoom e st1 sock currentRoom
                      else (st1, sock)) of
              (st2, sock2) \<Rightarrow>
               (let ps = AList.update pid
                           \<lparr> rp_id = pid, rp_name = pname, rp_socketId = socket_id sock,
                             joinedAt = env_now e, isReady = False \<rparr>
                           (room_players r);
                    r1 = r \<lparr> room_players := ps, currentPlayers := length ps \<rparr>;
                    st3 = st2 \<lparr> activeRooms := AList.update rid r1 (activeRooms st2),
                                playerRooms := AList.update pid rid (playerRooms st2) \<rparr>;
                    sock3 = sock2 \<lparr> joined := rid # joined sock2, playerId := Some pid,
                                    playerName := Some pname, socket_roomId := Some rid \<rparr>;
                    st4 = saveRoomToDatabase e r1 st3;
                    st5 = emit (ToRoom rid, ''player-joined'',
                                PlayerJoined pid (currentPlayers r1) (maxPlayers r1)) st4;
                    st6 = emit (ToSocket (socket_id sock), ''room-joined'',
                                RoomInfo rid (currentPlayers r1)) st5
                in case (if currentPlayers r1 = 2 \<and> room_status r1 = ''waiting''
                         then checkGameStart e st6 rid r1 else (False, st6)) of
                     (threw, st7) \<Rightarrow>
                       if threw then (room_error sock ''JOIN_ROOM_ERROR'' st7, sock3)
                       else (broadcastRoomListUpdate st7, sock3))))"

text \<open>\<open>spectateGame(socket, data)\<close>: a spectator is keyed by the socket id.\<close>

definition spectateGame :: "env \<Rightarrow> room_controller \<Rightarrow> socket \<Rightarrow> string \<Rightarrow> room_controller \<times> socket" where
  "spectateGame e st sock rid =
     (case map_of (activeRooms st) rid of
        None \<Rightarrow> (room_error sock ''ROOM_NOT_FOUND'' st, sock)
      | Some r \<Rightarrow>
         (let sid = socket_id sock;
              r1 = r \<lparr> spectators := AList.update sid
                          \<lparr> spectator_id = sid, spectator_socketId = sid,
                            spectator_joinedAt = env_now e \<rparr> (spectators r) \<rparr>;
              st1 = st \<lparr> activeRooms := AList.update rid r1 (activeRooms st) \<rparr>;
              sock1 = sock \<lparr> joined := rid # joined sock, isSpectator := True,
                             socket_roomId := Some rid \<rparr>
          in (emit (ToSocket sid, ''spectating-started'',
                    Spectating rid (length (spectators r1))) st1, sock1)))"

text \<open>
  \<open>handleDisconnect(socket)\<close>: leave the room the index names, then drop the socket from
  the spectators of the first active room that lists it.
\<close>

fun drop_spectator :: "string \<Rightarrow> (string \<times> room) list \<Rightarrow> (string \<times> room) list" where
  "drop_spectator sid [] = []"
| "drop_spectator sid ((rid, r) # rest) =
     (if map_of (spectators r) sid \<noteq> None
      then (rid, r \<lparr> spectators := AList.delete sid (spectators r) \<rparr>) # rest
      else (rid, r) # drop_spectator sid rest)"

definition handleDisconnect :: "env \<Rightarrow> room_controller \<Rightarrow> socket \<Rightarrow> room_controller \<times> socket" where
  "handleDisconnect e st sock =
     (case (case map_of (playerRooms st) (player_id_of sock) of
              None \<Rightarrow> (st, sock)
            | Some rid \<Rightarrow> if rid \<noteq> [] then leaveRoom e st sock rid else (st, sock)) of
        (st1, sock1) \<Rightarrow>
          (st1 \<lparr> activeRooms := drop_spectator (socket_id sock) (activeRooms st1) \<rparr>, sock1))"

text \<open>\<open>handleChatMessage(socket, data)\<close> with the fields \<open>message\<close> and \<open>roomId\<close> of \<open>data\<close>.\<close>

definition handleChatMessage ::
  "env \<Rightarrow> room_controller \<Rightarrow> socket \<Rightarrow> js_message \<Rightarrow> string \<Rightarrow> room_controller" where
  "handleChatMessage e st sock msg rid =
     (let pid = player_id_of sock;
          pname = player_name_of sock;
          chat_error = (\<lambda>code. emit (ToSocket (socket_id sock), ''chat-error'', Code code) st)
      in case map_of (activeRooms st) rid of
        None \<Rightarrow> chat_error ''ROOM_NOT_FOUND''
      | Some r \<Rightarrow>
          if map_of (room_players r) pid = None \<and> map_of (spectators r) pid = None
          then chat_error ''NOT_IN_ROOM''
          else let sanitizedMessage = sanitizeChatMessage msg in
            if sanitizedMessage = [] then chat_error ''INVALID_MESSAGE''
            else
             (let chatMessage = \<lparr> chat_id = env_uuid e, chat_playerId = pid,
                                  chat_playerName = pname, chat_text = sanitizedMessage,
                                  chat_timestamp = env_now e, chat_roomId = rid \<rparr>;
                  h = chatHistory r @ [chatMessage];
                  h1 = (if length h > 100 then drop (length h - 100) h else h);
                  st1 = st \<lparr> activeRooms :=
                               AList.update rid (r \<lparr> chatHistory := h1 \<rparr>) (activeRooms st) \<rparr>;
                  st2 = saveChatMessageToDatabase e chatMessage st1
              in emit (ToRoom rid, ''chat-message'', Chat pid sanitizedMessage) st2))"

text \<open>
  \<open>cleanupEmptyRooms()\<close>, run once a minute: an active room without members whose
  creation lies more than five minutes back is dropped from the map and from storage.
\<close>

definition cleanupEmptyRooms :: "env \<Rightarrow> room_controller \<Rightarrow> room_controller" where
  "cleanupEmptyRooms e st =
     (let stale = (\<lambda>(rid, r). currentPlayers r = 0 \<and> env_now e - room_createdAt r > 5 * 60 * 1000);
          gone = map fst (filter stale (activeRooms st))
      in fold (deleteRoomFromDatabase e) gone
           (st \<lparr> activeRooms := filter (\<lambda>x. \<not> stale x) (activeRooms st) \<rparr>))"

subsection \<open>Joins that overlap\<close>

text \<open>
  The handlers are \<open>async\<close> functions: at an \<open>await\<close> a call gives way, and other calls
  run before it goes on. The definitions above run each call from its first statement to
  its last without a break. One of the breaks of \<open>joinRoom\<close> lies between its capacity test
  and the statement that adds the player: on a private room with a password the call waits
  for \<open>bcrypt.compare\<close>. Up to there it has written nothing on an active room, so how far it
  got is a test on the state: \<open>waits_at_compare\<close> holds when the call finds the room in the
  map, passes the capacity test and the test for a missing password, and waits.
  \<open>joinRoom_after_compare\<close> is the rest of that call, from the test of \<open>passwordValid\<close> to
  the end, on the state it finds when it goes on. The room object it holds is the one it
  looked up before the wait, which is the entry of \<open>activeRooms\<close> as long as the room has
  stayed in the map; a call that finds the room gone from the map works on an object the
  state no longer holds, and is not followed further (\<open>None\<close>).
\<close>

definition waits_at_compare :: "room_controller \<Rightarrow> string \<Rightarrow> string option \<Rightarrow> bool" where
  "waits_at_compare st rid pw =
     (case map_of (activeRooms st) rid of
        None \<Rightarrow> False
      | Some r \<Rightarrow> \<not> int (currentPlayers r) \<ge> maxPlayers r
                    \<and> isPrivate r \<and> truthy (password r) \<and> truthy pw)"

definition joinRoom_after_compare ::
  "env \<Rightarrow> room_controller \<Rightarrow> socket \<Rightarrow> string \<Rightarrow> string \<Rightarrow> (room_controller \<times> socket) option" where
  "joinRoom_after_compare e st1 sock rid pname =
     (let pid = player_id_of sock in
      case map_of (activeRooms st1) rid of
        None \<Rightarrow> None
      | Some r \<Rightarrow> Some
         (if \<not> env_password_ok e
          then (room_error sock ''INVALID_PASSWORD'' st1, sock)
          else
           (case (case map_of (playerRooms st1) pid of
                    None \<Rightarrow> (st1, sock)
                  | Some currentRoom \<Rightarrow>
                      if currentRoom \<noteq> [] \<and> currentRoom \<noteq> rid
                      then leaveRoom e st1 sock currentRoom
                      else (st1, sock)) of
              (st2, sock2) \<Rightarrow>
               (let ps = AList.update pid
                           \<lparr> rp_id = pid, rp_name = pname, rp_socketId = socket_id sock,
                             joinedAt = env_now e, isReady = False \<rparr>
                           (room_players r);
                    r1 = r \<lparr> room_players := ps, currentPlayers := length ps \<rparr>;
                    st3 = st2 \<lparr> activeRooms := AList.update rid r1 (activeRooms st2),
                                playerRooms := AList.update pid rid (playerRooms st2) \<rparr>;
                    sock3 = sock2 \<lparr> joined := rid # joined sock2, playerId := Some pid,
                                    playerName := Some pname, socket_roomId := Some rid \<rparr>;
                    st4 = saveRoomToDatabase e r1 st3;
                    st5 = emit (ToRoom rid, ''player-joined'',
                                PlayerJoined pid (currentPlayers r1) (maxPlayers r1)) st4;
                    st6 = emit (ToSocket (socket_id sock), ''room-joined'',
                                RoomInfo rid (currentPlayers r1)) st5
                in case (if currentPlayers r1 = 2 \<and> room_status r1 = ''waiting''
                         then checkGameStart e st6 rid r1 else (False, st6)) of
                     (threw, st7) \<Rightarrow>
                       if threw then (room_error sock ''JOIN_ROOM_ERROR'' st7, sock3)
                       else (broadcastRoomListUpdate st7, sock3)))))"

section \<open>Game service: vocabulary of the properties\<close>

text \<open>
  The predicates below state the properties in the words of the specification; none of
  them is used by the operations above. A board of the data model is a 3 by 3 grid.
\<close>

definition wf_board :: "board \<Rightarrow> bool" where
  "wf_board b = (length b = 3 \<and> list_all (\<lambda>row. length row = 3) b)"

text \<open>A triple of positions, all of them on the board.\<close>

definition in_range :: "combination \<Rightarrow> bool" where
  "in_range c = (case c of ((x1, y1), (x2, y2), (x3, y3)) \<Rightarrow>
      x1 < 3 \<and> y1 < 3 \<and> x2 < 3 \<and> y2 < 3 \<and> x3 < 3 \<and> y3 < 3)"

text \<open>The three cells of a triple are equal and not empty; \<open>occupant\<close> is the key they hold.\<close>

definition line_won :: "board \<Rightarrow> combination \<Rightarrow> bool" where
  "line_won b c = (case c of ((x1, y1), (x2, y2), (x3, y3)) \<Rightarrow>
      b ! x1 ! y1 \<noteq> None \<and> b ! x1 ! y1 = b ! x2 ! y2 \<and> b ! x2 ! y2 = b ! x3 ! y3)"

definition occupant :: "board \<Rightarrow> combination \<Rightarrow> cell" where
  "occupant b c = (case c of ((x1, y1), _) \<Rightarrow> b ! x1 ! y1)"

text \<open>The eight fixed triples of the specification: three rows, three columns, two diagonals.\<close>

definition row_triples :: "combination list" where
  "row_triples = map (\<lambda>x. ((x, 0), (x, 1), (x, 2))) [0..<3]"

definition column_triples :: "combination list" where
  "column_triples = map (\<lambda>y. ((0, y), (1, y), (2, y))) [0..<3]"

definition diagonal_triples :: "combination list" where
  "diagonal_triples = [((0, 0), (1, 1), (2, 2)), ((0, 2), (1, 1), (2, 0))]"

definition all_triples :: "combination list" where
  "all_triples = row_triples @ column_triples @ diagonal_triples"

text \<open>
  The four conditions under which a move is accepted: status \<open>playing\<close> (read off the
  state directly), the mover is the current player, both coordinates are integers in
  \<open>[0, 2]\<close>, and the target cell is empty.
\<close>

definition in_bounds :: "coord \<Rightarrow> bool" where
  "in_bounds c = (case c of Whole i \<Rightarrow> 0 \<le> i \<and> i \<le> 2 | NotInteger \<Rightarrow> False)"

definition is_current_player :: "game_state \<Rightarrow> string \<Rightarrow> bool" where
  "is_current_player g pid =
     (case players g (currentPlayer g) of None \<Rightarrow> False | Some p \<Rightarrow> player_id p = pid)"

text \<open>
  The target cell is the cell in row \<open>i\<close> and column \<open>j\<close> of the board when the
  coordinates are the integers \<open>i\<close> and \<open>j\<close>; other coordinates name no cell.
\<close>

definition target_empty :: "game_state \<Rightarrow> coord \<Rightarrow> coord \<Rightarrow> bool" where
  "target_empty g x y =
     (case x of
        NotInteger \<Rightarrow> False
      | Whole i \<Rightarrow> (case y of NotInteger \<Rightarrow> False | Whole j \<Rightarrow> board g ! nat i ! nat j = None))"

definition cells_of :: "board \<Rightarrow> combination \<Rightarrow> cell list" where
  "cells_of b c = (case c of ((x1, y1), (x2, y2), (x3, y3)) \<Rightarrow>
      [b ! x1 ! y1, b ! x2 ! y2, b ! x3 ! y3])"

text \<open>
  Some triple is won; player \<open>k\<close> holds all three cells of some triple; every cell of the
  board is occupied.
\<close>

definition has_winning_triple :: "board \<Rightarrow> bool" where
  "has_winning_triple b = list_ex (line_won b) all_triples"

definition owns_triple :: "board \<Rightarrow> player_key \<Rightarrow> bool" where
  "owns_triple b k = list_ex (\<lambda>c. cells_of b c = [Some k, Some k, Some k]) all_triples"

definition board_full :: "board \<Rightarrow> bool" where
  "board_full b = list_all (list_all (\<lambda>c. c \<noteq> None)) b"

text \<open>The board after the mover's key is written to cell \<open>(x, y)\<close>, and the move record appended.\<close>

definition place :: "board \<Rightarrow> nat \<Rightarrow> nat \<Rightarrow> player_key \<Rightarrow> board" where
  "place b x y k = b[x := (b ! x)[y := Some k]]"

definition new_move :: "game_state \<Rightarrow> string \<Rightarrow> coord \<Rightarrow> coord \<Rightarrow> int \<Rightarrow> move" where
  "new_move g pid x y t =
     \<lparr> move_playerId = pid, playerKey = currentPlayer g, move_x = x, move_y = y,
       timestamp = t, moveNumber = length (moveHistory g) + 1 \<rparr>"

text \<open>The moves of the history carry the sequence numbers \<open>1, 2, ..., n\<close> in this order.\<close>

definition numbered :: "game_state \<Rightarrow> bool" where
  "numbered g = (map moveNumber (moveHistory g) = [1..<Suc (length (moveHistory g))])"

text \<open>
  The game states the program holds: created by \<open>createGame\<close>, advanced by successful
  calls of \<open>makeMove\<close>, or read back by \<open>loadGameFromDatabase\<close> from a row that
  \<open>saveGameToDatabase\<close> wrote for such a state. While such a game is \<open>playing\<close> its board
  holds no won triple and its winner is \<open>null\<close>.
\<close>

definition game_inv :: "game_state \<Rightarrow> bool" where
  "game_inv g = (wf_board (board g) \<and> numbered g \<and>
     (status g = ''playing'' \<longrightarrow> \<not> has_winning_triple (board g) \<and> winner g = None))"

inductive reachable_game :: "game_state \<Rightarrow> bool" where
  created: "createGame rid ps uuid now = Inr g \<Longrightarrow> reachable_game g"
| moved: "reachable_game g \<Longrightarrow> r < length h \<Longrightarrow> h ! r = g \<Longrightarrow>
          makeMove h r pid x y t1 t2 t3 = Inr (Success r', h') \<Longrightarrow> reachable_game (h' ! r')"
| reloaded: "reachable_game g \<Longrightarrow> saveGameToDatabase g now = Some row \<Longrightarrow>
             select_game games rid = Some row \<Longrightarrow>
             loadGameFromDatabase games rid = Some g' \<Longrightarrow> reachable_game g'"

subsection \<open>Concrete game states\<close>

text \<open>
  Alice is \<open>player1\<close> and Bob is \<open>player2\<close>. In \<open>midgame_state\<close> each has two cells of a
  row and Alice is to move. In \<open>corner_free_state\<close> one move of each has been made and
  the corner \<open>(0, 0)\<close> is free. In \<open>stale_state\<close> the top row already belongs to Bob although
  the status is still \<open>playing\<close>: a state of the data model (six occupied cells, six moves)
  that no sequence of moves produces.
\<close>

definition demo_players :: "player_key \<Rightarrow> player option" where
  "demo_players k = (case k of
       player1 \<Rightarrow> Some \<lparr> player_id = ''alice'', player_name = Some ''Alice'',
                         character = Some ''fire_warrior'', symbol = Some ''X'' \<rparr>
     | player2 \<Rightarrow> Some \<lparr> player_id = ''bob'', player_name = Some ''Bob'',
                         character = Some ''ice_guardian'', symbol = Some ''O'' \<rparr>)"

definition demo_move :: "player_key \<Rightarrow> int \<Rightarrow> int \<Rightarrow> nat \<Rightarrow> move" where
  "demo_move k i j n =
     \<lparr> move_playerId = (if k = player1 then ''alice'' else ''bob''), playerKey = k,
       move_x = Whole i, move_y = Whole j, timestamp = int n, moveNumber = n \<rparr>"

definition demo_state :: "board \<Rightarrow> move list \<Rightarrow> game_state" where
  "demo_state b ms =
     \<lparr> game_id = ''game-1'', roomId = ''room-1'', board = b, players = demo_players,
       currentPlayer = player1, status = ''playing'', winner = None, moveHistory = ms,
       createdAt = 0, startedAt = Some 0, lastMoveAt = Some 0, finishedAt = None \<rparr>"

definition fresh_state :: game_state where
  "fresh_state = demo_state [[None, None, None], [None, None, None], [None, None, None]] []"

definition midgame_state :: game_state where
  "midgame_state =
     demo_state [[Some player1, Some player1, None],
                 [Some player2, Some player2, None],
                 [None, None, None]]
       [demo_move player1 0 0 1, demo_move player2 1 0 2,
        demo_move player1 0 1 3, demo_move player2 1 1 4]"

definition stale_state :: game_state where
  "stale_state =
     demo_state [[Some player2, Some player2, Some player2],
                 [Some player1, Some player1, None],
                 [None, None, Some player1]]
       [demo_move player1 1 0 1, demo_move player2 0 0 2,
        demo_move player1 1 1 3, demo_move player2 0 1 4,
        demo_move player1 2 2 5, demo_move player2 0 2 6]"

definition corner_free_state :: game_state where
  "corner_free_state =
     demo_state [[None, Some player1, None],
                 [Some player2, None, None],
                 [None, None, None]]
       [demo_move player1 0 1 1, demo_move player2 1 0 2]"

subsection \<open>A game played from the start\<close>

text \<open>
  The game Alice and Bob get from \<open>createGame\<close>, and the state after a list of moves, each
  applied by \<open>makeMove\<close> to the state the move before it returned; the \<open>n\<close>-th move is made
  at time \<open>n\<close>.
\<close>

definition first_game :: "js_error + game_state" where
  "first_game = createGame ''room-1'' [(''alice'', ''Alice''), (''bob'', ''Bob'')] ''game-1'' 0"

fun play :: "game_state \<Rightarrow> (string \<times> int \<times> int) list \<Rightarrow> js_error + game_state" where
  "play g [] = Inr g"
| "play g ((pid, i, j) # ms) =
     (let t = int (length (moveHistory g)) + 1 in
      case makeMove [g] 0 pid (Whole i) (Whole j) t t t of
        Inl e \<Rightarrow> Inl e
      | Inr (Failure reason message, h') \<Rightarrow> Inl (Error reason)
      | Inr (Success r', h') \<Rightarrow> play (h' ! r') ms)"

definition game_after :: "(string \<times> int \<times> int) list \<Rightarrow> game_state" where
  "game_after ms = projr (case first_game of Inl e \<Rightarrow> Inl e | Inr g \<Rightarrow> play g ms)"

text \<open>
  Four moves after which Alice holds \<open>(0, 0)\<close>, \<open>(0, 1)\<close> and Bob \<open>(1, 0)\<close>, \<open>(1, 1)\<close>; a fifth
  move of Alice that leaves Bob to complete his row; and eight moves that fill the board
  but for \<open>(2, 2)\<close> without a won triple.
\<close>

definition two_rows :: "(string \<times> int \<times> int) list" where
  "two_rows = [(''alice'', 0, 0), (''bob'', 1, 0), (''alice'', 0, 1), (''bob'', 1, 1)]"

definition bob_to_win :: "(string \<times> int \<times> int) list" where
  "bob_to_win = two_rows @ [(''alice'', 2, 2)]"

definition eight_moves :: "(string \<times> int \<times> int) list" where
  "eight_moves = [(''alice'', 0, 0), (''bob'', 1, 1), (''alice'', 0, 2), (''bob'', 0, 1),
                  (''alice'', 2, 1), (''bob'', 1, 2), (''alice'', 1, 0), (''bob'', 2, 0)]"

section \<open>Chat sanitizer: vocabulary of the properties\<close>

text \<open>
  A string in which no \<open><\<close> has a \<open>>\<close> anywhere behind it: no tag pattern and no script
  pattern can match in it.
\<close>

fun no_tag :: "string \<Rightarrow> bool" where
  "no_tag [] = True"
| "no_tag (c # cs) = ((c = CHR ''<'' \<longrightarrow> CHR ''>'' \<notin> set cs) \<and> no_tag cs)"

section \<open>Rate limiter: vocabulary of the properties\<close>

text \<open>
  The number of recorded events of one type from one socket that are younger than \<open>w\<close>
  milliseconds at time \<open>now\<close>; only admitted events are recorded.
\<close>

definition window_count :: "rate_limiter \<Rightarrow> string \<Rightarrow> string \<Rightarrow> int \<Rightarrow> int \<Rightarrow> nat" where
  "window_count rl socketId eventType now w =
     (case map_of (clients rl) socketId of
        None \<Rightarrow> 0
      | Some d \<Rightarrow> length (filter (\<lambda>e. event_type e = eventType \<and> now - event_timestamp e < w)
                               (events d)))"

text \<open>
  The two limits \<open>checkLimit\<close> works with for an event type.
\<close>

definition minute_limit :: "rate_limiter \<Rightarrow> string \<Rightarrow> js_limit" where
  "minute_limit rl eventType = js_or (property (limits rl) eventType) (property (limits rl) ''default'')"

definition burst_limit :: "rate_limiter \<Rightarrow> string \<Rightarrow> js_limit" where
  "burst_limit rl eventType =
     js_or (property (burstLimits rl) eventType) (property (burstLimits rl) ''default'')"

text \<open>
  A sequence of calls of \<open>checkLimit\<close>, each with its socket, event type and time.
\<close>

fun run_checks :: "rate_limiter \<Rightarrow> (string \<times> string \<times> int) list \<Rightarrow> rate_limiter" where
  "run_checks rl [] = rl"
| "run_checks rl ((sid, ev, t) # calls) = run_checks (snd (checkLimit rl sid ev t)) calls"


section \<open>Room controller: vocabulary of the properties\<close>

text \<open>
  A room respects its capacity when the member counter agrees with the member map and
  does not exceed \<open>maxPlayers\<close>. A state is in order when every active room does, and no
  stored row carries a negative capacity (rows are written from rooms in order).
\<close>

definition room_ok :: "room \<Rightarrow> bool" where
  "room_ok r = (currentPlayers r = length (room_players r)
                  \<and> int (length (room_players r)) \<le> maxPlayers r)"

definition state_ok :: "room_controller \<Rightarrow> bool" where
  "state_ok st = (list_all (\<lambda>(rid, r). room_ok r) (activeRooms st)
                    \<and> list_all (\<lambda>(rid, row). 0 \<le> row_max_players row) (db_rooms st))"

text \<open>
  The controller starts without active rooms; storage may hold rows of an earlier run.
  The gateway hands \<open>create-room\<close> on only when \<open>maxPlayers\<close> is absent or an integer from
  2 to 10 (schema \<open>create-room\<close> of the validation middleware).
\<close>

definition initial :: "room_controller \<Rightarrow> bool" where
  "initial st = (activeRooms st = [] \<and> playerRooms st = []
                   \<and> list_all (\<lambda>(rid, row). 0 \<le> row_max_players row) (db_rooms st))"

definition valid_maxPlayers :: "int option \<Rightarrow> bool" where
  "valid_maxPlayers m = (case m of None \<Rightarrow> True | Some n \<Rightarrow> 2 \<le> n \<and> n \<le> 10)"

text \<open>
  The states reached when the operations of the controller are called in any order and
  each call runs to its end before the next one starts. Calls that overlap at an \<open>await\<close>
  are not steps of this relation; what two overlapping joins do is shown separately.
\<close>

inductive reachable_in_turn :: "room_controller \<Rightarrow> bool" where
  start: "initial st \<Longrightarrow> reachable_in_turn st"
| create: "reachable_in_turn st \<Longrightarrow> valid_maxPlayers m \<Longrightarrow>
           reachable_in_turn (fst (createRoom e st sock roomName priv pw m))"
| join: "reachable_in_turn st \<Longrightarrow> reachable_in_turn (fst (joinRoom e st sock rid pname pw))"
| leave: "reachable_in_turn st \<Longrightarrow> reachable_in_turn (fst (leaveRoom e st sock rid))"
| disconnect: "reachable_in_turn st \<Longrightarrow> reachable_in_turn (fst (handleDisconnect e st sock))"
| spectate: "reachable_in_turn st \<Longrightarrow> reachable_in_turn (fst (spectateGame e st sock rid))"
| chat: "reachable_in_turn st \<Longrightarrow> reachable_in_turn (handleChatMessage e st sock msg rid)"
| cleanup: "reachable_in_turn st \<Longrightarrow> reachable_in_turn (cleanupEmptyRooms e st)"

text \<open>
  A join is admitted by a room when the room has a free place and, if it is private with
  a password, a password is given and \<open>bcrypt.compare\<close> accepts it.
\<close>

definition admits :: "env \<Rightarrow> room \<Rightarrow> string option \<Rightarrow> bool" where
  "admits e r pw = (int (currentPlayers r) < maxPlayers r
                      \<and> (isPrivate r \<and> truthy (password r) \<longrightarrow> truthy pw \<and> env_password_ok e))"

subsection \<open>Concrete runs\<close>

text \<open>
  A controller without rooms and without stored rows, sockets as socket.io hands them
  over on connection, and surroundings in which storage works and passwords match.
\<close>

definition empty_controller :: room_controller where
  "empty_controller =
     \<lparr> activeRooms = [], playerRooms = [], db_rooms = [], db_chat_messages = [], emitted = [] \<rparr>"

definition new_socket :: "string \<Rightarrow> socket" where
  "new_socket sid =
     \<lparr> socket_id = sid, playerId = None, playerName = None, socket_roomId = None,
       isSpectator = False, joined = [] \<rparr>"

definition at_time :: "int \<Rightarrow> string \<Rightarrow> env" where
  "at_time t u =
     \<lparr> env_now = t, env_uuid = u, env_hashed = ''hash'', env_password_ok = True,
       env_db_up = True \<rparr>"

text \<open>Alice creates room \<open>room-a\<close> for two players; Bob joins it, which starts the game.\<close>

definition alice_creates :: "room_controller \<times> socket" where
  "alice_creates =
     createRoom (at_time 1 ''room-a'') empty_controller (new_socket ''alice'') ''Room A''
       None None None"

definition bob_joins :: "room_controller \<times> socket" where
  "bob_joins =
     joinRoom (at_time 2 ''u2'') (fst alice_creates) (new_socket ''bob'') ''room-a'' ''Bob'' None"

text \<open>Bob leaves the room, and then asks to leave it once more.\<close>

definition bob_leaves :: "room_controller \<times> socket" where
  "bob_leaves = leaveRoom (at_time 3 ''u3'') (fst bob_joins) (snd bob_joins) ''room-a''"

definition bob_leaves_again :: "room_controller \<times> socket" where
  "bob_leaves_again = leaveRoom (at_time 4 ''u4'') (fst bob_leaves) (snd bob_leaves) ''room-a''"

text \<open>Alice, still in \<open>room-a\<close> with Bob, asks to leave a room \<open>room-c\<close> that Carol created.\<close>

definition carol_creates :: "room_controller \<times> socket" where
  "carol_creates =
     createRoom (at_time 3 ''room-c'') (fst bob_joins) (new_socket ''carol'') ''Room C''
       None None None"

definition alice_leaves_other :: "room_controller \<times> socket" where
  "alice_leaves_other =
     leaveRoom (at_time 4 ''u4'') (fst carol_creates) (snd alice_creates) ''room-c''"

text \<open>Alice creates a second room while she is the member of her first one.\<close>

definition alice_creates_again :: "room_controller \<times> socket" where
  "alice_creates_again =
     createRoom (at_time 2 ''room-b'') (fst alice_creates) (snd alice_creates) ''Room B''
       None None None"

text \<open>Alice leaves the room she created, alone in it, and tries to come back a second later.\<close>

definition alice_leaves :: "room_controller \<times> socket" where
  "alice_leaves = leaveRoom (at_time 2 ''u2'') (fst alice_creates) (snd alice_creates) ''room-a''"

definition alice_returns :: "room_controller \<times> socket" where
  "alice_returns =
     joinRoom (at_time 3 ''u3'') (fst alice_leaves) (snd alice_leaves) ''room-a'' ''Alice'' None"

text \<open>Bob, in the room with Alice, sends the chat text of the scenario.\<close>

definition bob_chats :: room_controller where
  "bob_chats =
     handleChatMessage (at_time 3 ''m1'') (fst bob_joins) (snd bob_joins)
       (JString ''<script>alert(1)</script>hello'') ''room-a''"

text \<open>The members of a room and the room a player is indexed under, read off a state.\<close>

definition members :: "room_controller \<Rightarrow> string \<Rightarrow> string list option" where
  "members st rid = map_option (\<lambda>r. map fst (room_players r)) (map_of (activeRooms st) rid)"

definition status_of :: "room_controller \<Rightarrow> string \<Rightarrow> string option" where
  "status_of st rid = map_option room_status (map_of (activeRooms st) rid)"

text \<open>Dave creates a room of his own and then joins Alice's room.\<close>

definition dave_creates :: "room_controller \<times> socket" where
  "dave_creates =
     createRoom (at_time 2 ''room-d'') (fst alice_creates) (new_socket ''dave'') ''Room D''
       None None None"

definition dave_joins :: "room_controller \<times> socket" where
  "dave_joins =
     joinRoom (at_time 3 ''u3'') (fst dave_creates) (snd dave_creates) ''room-a'' ''Dave'' None"

text \<open>
  Alice leaves the room she is alone in while the storage call of \<open>leaveRoom\<close> fails, and
  comes back a second later, when storage works.
\<close>

definition alice_leaves_unsaved :: "room_controller \<times> socket" where
  "alice_leaves_unsaved =
     leaveRoom ((at_time 2 ''u2'') \<lparr> env_db_up := False \<rparr>) (fst alice_creates)
       (snd alice_creates) ''room-a''"

definition alice_reloads :: "room_controller \<times> socket" where
  "alice_reloads =
     joinRoom (at_time 3 ''u3'') (fst alice_leaves_unsaved) (snd alice_leaves_unsaved)
       ''room-a'' ''Alice'' None"

text \<open>
  Alice creates a private room for two with a password. Bob and Carol both ask to join it
  with the password, and both calls wait for \<open>bcrypt.compare\<close> before either goes on;
  then Bob's call goes on, and after it Carol's.
\<close>

definition alice_creates_private :: "room_controller \<times> socket" where
  "alice_creates_private =
     createRoom (at_time 1 ''room-p'') empty_controller (new_socket ''alice'') ''Private''
       (Some True) (Some ''secret'') None"

definition bob_goes_on :: "(room_controller \<times> socket) option" where
  "bob_goes_on =
     joinRoom_after_compare (at_time 2 ''u2'') (fst alice_creates_private) (new_socket ''bob'')
       ''room-p'' ''Bob''"

definition carol_goes_on :: "(room_controller \<times> socket) option" where
  "carol_goes_on =
     (case bob_goes_on of
        None \<Rightarrow> None
      | Some (st, sock) \<Rightarrow>
          joinRoom_after_compare (at_time 3 ''u3'') st (new_socket ''carol'') ''room-p'' ''Carol'')"

definition capacity_of :: "room_controller \<Rightarrow> string \<Rightarrow> int option" where
  "capacity_of st rid = map_option maxPlayers (map_of (activeRooms st) rid)"

section \<open>Game service: proofs\<close>

lemma line_won_triple:
  "line_won b ((x1, y1), (x2, y2), (x3, y3)) =
     (b ! x1 ! y1 \<noteq> None \<and> b ! x1 ! y1 = b ! x2 ! y2 \<and> b ! x2 ! y2 = b ! x3 ! y3)"
  by (simp add: line_won_def)

lemma occupant_triple: "occupant b ((x1, y1), t) = b ! x1 ! y1"
  by (simp add: occupant_def)

lemma upt_3: "[0..<3] = [0, 1, 2]"
  by (simp add: upt_rec)

lemma WINNING_COMBINATIONS_all_triples: "WINNING_COMBINATIONS = all_triples"
  by (simp add: WINNING_COMBINATIONS_def all_triples_def row_triples_def column_triples_def
      diagonal_triples_def upt_3)

lemma cell_at_wf:
  assumes "wf_board b" "x < 3" "y < 3"
  shows "cell_at b x y = Inr (case b ! x ! y of None \<Rightarrow> Null | Some k \<Rightarrow> Key k)"
proof -
  from assms have "x < length b" and "length (b ! x) = 3"
    by (simp_all add: wf_board_def list_all_length)
  with assms(3) show ?thesis
    by (simp add: cell_at_def split: option.split)
qed

lemma checkWinner_loop_find:
  assumes "wf_board b" "list_all in_range cs"
  shows "checkWinner_loop b cs =
           Inr (case find (line_won b) cs of None \<Rightarrow> None | Some c \<Rightarrow> occupant b c)"
  using assms(2)
proof (induction cs)
  case Nil
  show ?case by simp
next
  case (Cons c cs)
  obtain x1 y1 x2 y2 x3 y3 where c: "c = ((x1, y1), (x2, y2), (x3, y3))"
    by (metis prod.exhaust)
  from Cons.prems have r: "x1 < 3" "y1 < 3" "x2 < 3" "y2 < 3" "x3 < 3" "y3 < 3"
    by (simp_all add: c in_range_def)
  from Cons have ih: "checkWinner_loop b cs =
      Inr (case find (line_won b) cs of None \<Rightarrow> None | Some c \<Rightarrow> occupant b c)"
    by simp
  show ?case
    by (simp add: c ih cell_at_wf [OF assms(1)] r line_won_triple occupant_triple split: option.split)
qed

lemma getWinningCombination_loop_find:
  assumes "wf_board b" "list_all in_range cs"
  shows "getWinningCombination_loop b cs = Inr (find (line_won b) cs)"
  using assms(2)
proof (induction cs)
  case Nil
  show ?case by simp
next
  case (Cons c cs)
  obtain x1 y1 x2 y2 x3 y3 where c: "c = ((x1, y1), (x2, y2), (x3, y3))"
    by (metis prod.exhaust)
  from Cons.prems have r: "x1 < 3" "y1 < 3" "x2 < 3" "y2 < 3" "x3 < 3" "y3 < 3"
    by (simp_all add: c in_range_def)
  from Cons have ih: "getWinningCombination_loop b cs = Inr (find (line_won b) cs)"
    by simp
  show ?case
    by (simp add: c ih cell_at_wf [OF assms(1)] r line_won_triple split: option.split)
qed

lemma in_range_WINNING_COMBINATIONS: "list_all in_range WINNING_COMBINATIONS"
  by (simp add: WINNING_COMBINATIONS_def in_range_def)

lemma isValidCoordinate_in_bounds: "isValidCoordinate x y = (in_bounds x \<and> in_bounds y)"
  by (cases x; cases y) (auto simp: in_bounds_def BOARD_SIZE_def)

lemma in_bounds_index: "in_bounds x \<Longrightarrow> index_of x < 3"
  by (cases x) (auto simp: in_bounds_def)

lemma target_empty_index:
  "in_bounds x \<Longrightarrow> in_bounds y \<Longrightarrow>
     target_empty g x y = (board g ! index_of x ! index_of y = None)"
  by (cases x; cases y) (simp_all add: target_empty_def in_bounds_def)

lemma validateMove_wf:
  assumes "r < length h" and "wf_board (board (h ! r))"
  shows "validateMove h r pid x y = Inr
     (if status (h ! r) \<noteq> ''playing''
        then Invalid ''GAME_NOT_ACTIVE'' ''Game is not currently active''
      else if \<not> is_current_player (h ! r) pid then Invalid ''NOT_YOUR_TURN'' ''It is not your turn''
      else if \<not> (in_bounds x \<and> in_bounds y)
        then Invalid ''INVALID_COORDINATES'' ''Invalid board coordinates''
      else if \<not> target_empty (h ! r) x y then Invalid ''CELL_OCCUPIED'' ''Cell is already occupied''
      else Valid, h)"
proof -
  have cur: "(Some pid \<noteq> map_option player_id (players (h ! r) (currentPlayer (h ! r))))
               = (\<not> is_current_player (h ! r) pid)"
    by (auto simp: is_current_player_def split: option.split)
  show ?thesis
    unfolding validateMove_def Let_def cur isValidCoordinate_in_bounds
    using assms(1)
    by (auto simp: cell_at_wf [OF assms(2)] in_bounds_index target_empty_index split: option.split)
qed

text \<open>
  C1. On every heap, for every reference to a game state with a 3 by 3 board, every player
  id and every pair of coordinates, \<open>validateMove\<close> returns a verdict together with the heap
  it was given, unchanged. The verdict is \<open>valid\<close> exactly when the status is \<open>playing\<close>,
  the player id is the id of the current player, both coordinates are integers in
  \<open>[0, 2]\<close> and the cell of the board in that row and column is empty. Otherwise it is the
  reason of the first check that fails, in the order \<open>GAME_NOT_ACTIVE\<close>, \<open>NOT_YOUR_TURN\<close>,
  \<open>INVALID_COORDINATES\<close>, \<open>CELL_OCCUPIED\<close>.
\<close>

theorem validateMove_accepts_iff:
  assumes "r < length h" and "wf_board (board (h ! r))"
  shows "\<exists>v. validateMove h r pid x y = Inr (v, h)
       \<and> (v = Valid \<longleftrightarrow>
            status (h ! r) = ''playing'' \<and> is_current_player (h ! r) pid
            \<and> in_bounds x \<and> in_bounds y \<and> target_empty (h ! r) x y)
       \<and> (status (h ! r) \<noteq> ''playing'' \<longrightarrow>
            v = Invalid ''GAME_NOT_ACTIVE'' ''Game is not currently active'')
       \<and> (status (h ! r) = ''playing'' \<and> \<not> is_current_player (h ! r) pid \<longrightarrow>
            v = Invalid ''NOT_YOUR_TURN'' ''It is not your turn'')
       \<and> (status (h ! r) = ''playing'' \<and> is_current_player (h ! r) pid
            \<and> \<not> (in_bounds x \<and> in_bounds y) \<longrightarrow>
            v = Invalid ''INVALID_COORDINATES'' ''Invalid board coordinates'')
       \<and> (status (h ! r) = ''playing'' \<and> is_current_player (h ! r) pid
            \<and> in_bounds x \<and> in_bounds y \<and> \<not> target_empty (h ! r) x y \<longrightarrow>
            v = Invalid ''CELL_OCCUPIED'' ''Cell is already occupied'')"
  by (auto simp: validateMove_wf [OF assms])

lemma line_won_occupant: "line_won b c \<Longrightarrow> occupant b c \<noteq> None"
  by (cases c) (auto simp: line_won_def occupant_def)

lemma checkWinner_wf:
  assumes "wf_board b"
  shows "checkWinner b =
           Inr (case find (line_won b) all_triples of None \<Rightarrow> None | Some c \<Rightarrow> occupant b c)"
  unfolding checkWinner_def
  using checkWinner_loop_find [OF assms in_range_WINNING_COMBINATIONS]
  by (simp add: WINNING_COMBINATIONS_all_triples)

lemma getWinningCombination_wf:
  assumes "wf_board b"
  shows "getWinningCombination b = Inr (find (line_won b) all_triples)"
  unfolding getWinningCombination_def
  using getWinningCombination_loop_find [OF assms in_range_WINNING_COMBINATIONS]
  by (simp add: WINNING_COMBINATIONS_all_triples)

text \<open>
  C2. On every 3 by 3 board \<open>checkWinner\<close> returns a player key exactly when at least one of
  the eight fixed triples (rows, columns, diagonals) has three equal non-empty cells, and
  the key returned is the occupant of such a triple.
\<close>

theorem checkWinner_detects_triple:
  assumes "wf_board b"
  shows "\<exists>r. checkWinner b = Inr r
           \<and> (r \<noteq> None \<longleftrightarrow> (\<exists>c \<in> set all_triples. line_won b c))
           \<and> (\<forall>k. r = Some k \<longrightarrow> (\<exists>c \<in> set all_triples. line_won b c \<and> occupant b c = Some k))"
proof (cases "find (line_won b) all_triples")
  case None
  then have "\<not> (\<exists>c \<in> set all_triples. line_won b c)"
    by (auto simp: find_None_iff)
  with None show ?thesis
    by (simp add: checkWinner_wf [OF assms])
next
  case (Some c)
  then have c: "c \<in> set all_triples" "line_won b c"
    by (auto simp: find_Some_iff)
  then obtain k where k: "occupant b c = Some k"
    using line_won_occupant by blast
  from Some c k show ?thesis
    by (auto simp: checkWinner_wf [OF assms])
qed

lemma line_won_cells: "line_won b c \<Longrightarrow> cells_of b c = [occupant b c, occupant b c, occupant b c]"
  by (cases c) (auto simp: line_won_def occupant_def cells_of_def)

text \<open>
  C10. On every 3 by 3 board \<open>getWinningCombination\<close> returns a triple exactly when
  \<open>checkWinner\<close> returns a player key, and then the three cells of that triple all hold the
  key that \<open>checkWinner\<close> returns.
\<close>

theorem getWinningCombination_agrees:
  assumes "wf_board b"
  shows "\<exists>w t. checkWinner b = Inr w \<and> getWinningCombination b = Inr t
           \<and> (t \<noteq> None \<longleftrightarrow> w \<noteq> None)
           \<and> (\<forall>c k. t = Some c \<and> w = Some k \<longrightarrow>
                  c \<in> set WINNING_COMBINATIONS \<and> cells_of b c = [Some k, Some k, Some k])"
proof (cases "find (line_won b) all_triples")
  case None
  then show ?thesis
    by (simp add: checkWinner_wf [OF assms] getWinningCombination_wf [OF assms])
next
  case (Some c)
  then have c: "c \<in> set all_triples" "line_won b c"
    by (auto simp: find_Some_iff)
  then obtain k where k: "occupant b c = Some k"
    using line_won_occupant by blast
  from Some c k line_won_cells [OF c(2)] show ?thesis
    by (simp add: checkWinner_wf [OF assms] getWinningCombination_wf [OF assms]
        WINNING_COMBINATIONS_all_triples del: split_paired_All split_paired_Ex)
qed

lemma wf_board_cases:
  assumes "wf_board b"
  obtains a0 a1 a2 b0 b1 b2 c0 c1 c2 where "b = [[a0, a1, a2], [b0, b1, b2], [c0, c1, c2]]"
proof -
  from assms have "length b = Suc (Suc (Suc 0))" "\<forall>row \<in> set b. length row = Suc (Suc (Suc 0))"
    by (simp_all add: wf_board_def list_all_iff)
  then show ?thesis
    by (auto simp: length_Suc_conv intro: that)
qed

lemma isBoardFull_wf:
  assumes "wf_board b"
  shows "isBoardFull b = Inr (board_full b)"
proof -
  obtain a0 a1 a2 b0 b1 b2 c0 c1 c2 where b: "b = [[a0, a1, a2], [b0, b1, b2], [c0, c1, c2]]"
    using assms by (rule wf_board_cases)
  show ?thesis
    unfolding isBoardFull_def b
    by (simp add: BOARD_SIZE_def upt_3 cell_at_def board_full_def split: option.split)
qed

lemma wf_board_place: "wf_board b \<Longrightarrow> wf_board (place b x y k)"
  by (cases "x < length b")
     (auto simp: wf_board_def place_def list_all_length nth_list_update)

lemma nth_place:
  assumes "wf_board b" "i < 3" "j < 3" "x < 3" "y < 3"
  shows "place b x y k ! i ! j = (if i = x \<and> j = y then Some k else b ! i ! j)"
proof -
  from assms have "length b = 3" "length (b ! x) = 3"
    by (simp_all add: wf_board_def list_all_length)
  with assms show ?thesis
    by (auto simp: place_def nth_list_update)
qed

lemma new_line_is_movers:
  assumes wf: "wf_board b" and xy: "x < 3" "y < 3" and c: "in_range c"
    and old: "\<not> line_won b c" and new: "line_won (place b x y k) c"
  shows "occupant (place b x y k) c = Some k"
proof -
  obtain x1 y1 x2 y2 x3 y3 where c_eq: "c = ((x1, y1), (x2, y2), (x3, y3))"
    by (metis prod.exhaust)
  from c have r: "x1 < 3" "y1 < 3" "x2 < 3" "y2 < 3" "x3 < 3" "y3 < 3"
    by (simp_all add: c_eq in_range_def)
  from old new show ?thesis
    unfolding c_eq line_won_triple occupant_triple
    by (auto simp: nth_place [OF wf _ _ xy] r split: if_splits)
qed

lemma in_range_all_triples: "list_all in_range all_triples"
  using in_range_WINNING_COMBINATIONS by (simp add: WINNING_COMBINATIONS_all_triples)

lemma checkWinner_after_place:
  assumes wf: "wf_board b" and xy: "x < 3" "y < 3" and old: "\<not> has_winning_triple b"
  shows "checkWinner (place b x y k) =
           Inr (if has_winning_triple (place b x y k) then Some k else None)"
proof (cases "find (line_won (place b x y k)) all_triples")
  case None
  then have "\<not> has_winning_triple (place b x y k)"
    by (auto simp: find_None_iff has_winning_triple_def list_ex_iff)
  with None show ?thesis
    by (simp add: checkWinner_wf [OF wf_board_place [OF wf]])
next
  case (Some c)
  then have c: "c \<in> set all_triples" "line_won (place b x y k) c"
    by (auto simp: find_Some_iff)
  from c(1) have rng: "in_range c"
    using in_range_all_triples by (simp add: list_all_iff)
  from c(1) old have "\<not> line_won b c"
    by (auto simp: has_winning_triple_def list_ex_iff)
  then have "occupant (place b x y k) c = Some k"
    using new_line_is_movers [OF wf xy rng] c(2) by simp
  moreover from c have "has_winning_triple (place b x y k)"
    by (auto simp: has_winning_triple_def list_ex_iff)
  ultimately show ?thesis
    using Some by (simp add: checkWinner_wf [OF wf_board_place [OF wf]])
qed

lemma validateMove_ValidD:
  assumes "r < length h" and "wf_board (board (h ! r))"
    and "validateMove h r pid x y = Inr (Valid, h0)"
  shows "status (h ! r) = ''playing''" "is_current_player (h ! r) pid" "in_bounds x" "in_bounds y"
    "target_empty (h ! r) x y" "h0 = h"
  using assms(3) validateMove_wf [OF assms(1,2), of pid x y]
  by (simp_all split: if_splits)

lemma validateMove_same_heap:
  "validateMove h r pid x y = Inr (v, h0) \<Longrightarrow> h0 = h \<and> r < length h"
  by (auto simp: validateMove_def Let_def split: if_splits sum.splits)

lemma in_bounds_Whole:
  assumes "in_bounds x"
  obtains i where "x = Whole i" "0 \<le> i" "i \<le> 2" "index_of x = nat i" "nat i < 3"
  using assms by (cases x) (auto simp: in_bounds_def)

lemma makeMove_valid_result:
  fixes t1 t2 t3 :: int
  assumes r: "r < length h" and wf: "wf_board (board (h ! r))"
    and valid: "validateMove h r pid x y = Inr (Valid, h0)"
    and old: "\<not> has_winning_triple (board (h ! r))"
  defines "g \<equiv> h ! r"
  defines "b' \<equiv> place (board g) (index_of x) (index_of y) (currentPlayer g)"
  defines "s2 \<equiv> g \<lparr> board := b', lastMoveAt := Some t1,
                     moveHistory := moveHistory g @ [new_move g pid x y t2] \<rparr>"
  shows "makeMove h r pid x y t1 t2 t3 =
     Inr (Success (length h),
          h @ [if has_winning_triple b'
               then s2 \<lparr> status := ''finished'', winner := Some pid, finishedAt := Some t3 \<rparr>
               else if board_full b'
               then s2 \<lparr> status := ''draw'', finishedAt := Some t3 \<rparr>
               else s2 \<lparr> currentPlayer := other_player (currentPlayer g) \<rparr>])"
proof -
  note d = validateMove_ValidD [OF r wf valid]
  from d(2) obtain p where p: "players g (currentPlayer g) = Some p" "player_id p = pid"
    by (auto simp: is_current_player_def g_def split: option.splits)
  have xy: "index_of x < 3" "index_of y < 3"
    using d(3,4) by (simp_all add: in_bounds_index)
  have cw: "checkWinner b' = Inr (if has_winning_triple b' then Some (currentPlayer g) else None)"
    unfolding b'_def g_def by (rule checkWinner_after_place [OF wf xy old])
  have bf: "isBoardFull b' = Inr (board_full b')"
    unfolding b'_def g_def by (rule isBoardFull_wf [OF wf_board_place [OF wf]])
  have pl: "(board g)[index_of x := (board g ! index_of x)[index_of y := Some (currentPlayer g)]] = b'"
    by (simp add: b'_def place_def)
  have v: "validateMove h r pid x y = Inr (Valid, h)"
    using valid d(6) by simp
  show ?thesis
    unfolding makeMove_def Let_def v
    using p
    by (simp add: g_def [symmetric] pl cw bf s2_def new_move_def)
qed

lemma numbered_snoc:
  assumes "numbered g" "moveHistory g' = moveHistory g @ [new_move g pid x y t]"
  shows "numbered g'"
  using assms by (simp add: numbered_def new_move_def)

lemma sorted_numbered: "numbered g \<Longrightarrow> sorted_wrt (<) (map moveNumber (moveHistory g))"
  by (simp add: numbered_def del: upt_Suc)

lemma owns_triple_won:
  assumes "owns_triple b k"
  shows "has_winning_triple b"
proof -
  from assms obtain c where c: "c \<in> set all_triples" "cells_of b c = [Some k, Some k, Some k]"
    by (auto simp: owns_triple_def list_ex_iff)
  from c(2) have "line_won b c"
    by (cases c) (auto simp: cells_of_def line_won_def)
  with c(1) show ?thesis
    by (auto simp: has_winning_triple_def list_ex_iff)
qed

lemma won_after_place_owned:
  assumes wf: "wf_board b" and xy: "x < 3" "y < 3" and old: "\<not> has_winning_triple b"
    and new: "has_winning_triple (place b x y k)"
  shows "owns_triple (place b x y k) k"
proof -
  from new obtain c where c: "c \<in> set all_triples" "line_won (place b x y k) c"
    by (auto simp: has_winning_triple_def list_ex_iff)
  from c(1) have rng: "in_range c"
    using in_range_all_triples by (simp add: list_all_iff)
  from c(1) old have "\<not> line_won b c"
    by (auto simp: has_winning_triple_def list_ex_iff)
  then have "occupant (place b x y k) c = Some k"
    using new_line_is_movers [OF wf xy rng] c(2) by simp
  with line_won_cells [OF c(2)] have "cells_of (place b x y k) c = [Some k, Some k, Some k]"
    by simp
  with c(1) show ?thesis
    by (auto simp: owns_triple_def list_ex_iff)
qed

lemma createEmptyBoard_eq: "createEmptyBoard = [[None, None, None], [None, None, None], [None, None, None]]"
  by (simp add: createEmptyBoard_def BOARD_SIZE_def numeral_3_eq_3)

lemma all_triples_eq:
  "all_triples = [((0, 0), (0, 1), (0, 2)), ((1, 0), (1, 1), (1, 2)), ((2, 0), (2, 1), (2, 2)),
                  ((0, 0), (1, 0), (2, 0)), ((0, 1), (1, 1), (2, 1)), ((0, 2), (1, 2), (2, 2)),
                  ((0, 0), (1, 1), (2, 2)), ((0, 2), (1, 1), (2, 0))]"
  by (simp add: all_triples_def row_triples_def column_triples_def diagonal_triples_def upt_3)

lemma createGame_inv: "createGame rid ps uuid now = Inr g \<Longrightarrow> game_inv g"
  by (auto simp: createGame_def game_inv_def createEmptyBoard_eq wf_board_def numbered_def
      has_winning_triple_def all_triples_eq line_won_def split: if_splits)

lemma makeMove_Success_valid:
  assumes "makeMove h r pid x y t1 t2 t3 = Inr (Success r', h')"
  shows "validateMove h r pid x y = Inr (Valid, h) \<and> r < length h"
proof (cases "validateMove h r pid x y")
  case (Inl e)
  with assms show ?thesis by (simp add: makeMove_def)
next
  case (Inr vh)
  obtain v h0 where vh: "vh = (v, h0)"
    by (cases vh)
  from Inr vh have same: "h0 = h \<and> r < length h"
    using validateMove_same_heap by blast
  from assms Inr vh same show ?thesis
    by (cases v) (simp_all add: makeMove_def)
qed

lemma makeMove_inv:
  assumes inv: "game_inv (h ! r)"
    and mk: "makeMove h r pid x y t1 t2 t3 = Inr (Success r', h')"
  shows "game_inv (h' ! r')"
proof -
  from inv have wf: "wf_board (board (h ! r))" and nm: "numbered (h ! r)"
    by (simp_all add: game_inv_def)
  have valid: "validateMove h r pid x y = Inr (Valid, h)" and r: "r < length h"
    using makeMove_Success_valid [OF mk] by simp_all
  have playing: "status (h ! r) = ''playing''"
    using validateMove_ValidD(1) [OF r wf valid] .
  with inv have old: "\<not> has_winning_triple (board (h ! r))" and w: "winner (h ! r) = None"
    by (simp_all add: game_inv_def)
  let ?g = "h ! r"
  let ?b' = "place (board ?g) (index_of x) (index_of y) (currentPlayer ?g)"
  have wf': "wf_board ?b'"
    using wf by (rule wf_board_place)
  have nm': "numbered g'" if "moveHistory g' = moveHistory ?g @ [new_move ?g pid x y t2]" for g'
    using numbered_snoc [OF nm that] .
  let ?s2 = "?g \<lparr> board := ?b', lastMoveAt := Some t1,
                    moveHistory := moveHistory ?g @ [new_move ?g pid x y t2] \<rparr>"
  let ?g' = "if has_winning_triple ?b'
             then ?s2 \<lparr> status := ''finished'', winner := Some pid, finishedAt := Some t3 \<rparr>
             else if board_full ?b'
             then ?s2 \<lparr> status := ''draw'', finishedAt := Some t3 \<rparr>
             else ?s2 \<lparr> currentPlayer := other_player (currentPlayer ?g) \<rparr>"
  from mk have "h' ! r' = ?g'"
    unfolding makeMove_valid_result [OF r wf valid old] by auto
  moreover have "game_inv ?g'"
  proof (cases "has_winning_triple ?b'")
    case True
    then show ?thesis
      using wf' by (simp add: game_inv_def nm')
  next
    case False
    then show ?thesis
      using wf' playing w by (cases "board_full ?b'") (simp_all add: game_inv_def nm')
  qed
  ultimately show ?thesis
    by simp
qed

lemma reload_inv:
  assumes inv: "game_inv g" and row: "saveGameToDatabase g now = Some row"
    and sel: "select_game games rid = Some row"
    and load: "loadGameFromDatabase games rid = Some g'"
  shows "game_inv g'"
proof -
  from row have r: "games_board row = Some (board g)" "games_moves row = Some (moveHistory g)"
    "games_status row = status g" "games_winner_id row = winner g"
    by (auto simp: saveGameToDatabase_def split: option.splits)
  from load sel r have "board g' = board g" "moveHistory g' = moveHistory g"
    "status g' = status g" "winner g' = winner g"
    by (auto simp: loadGameFromDatabase_def)
  with inv show ?thesis
    by (simp add: game_inv_def numbered_def)
qed

text \<open>
  Every state the program holds has a 3 by 3 board and a history numbered \<open>1, ..., n\<close>,
  and while it is \<open>playing\<close> no triple is won and the winner is \<open>null\<close>.
\<close>

lemma reachable_game_inv: "reachable_game g \<Longrightarrow> game_inv g"
proof (induction rule: reachable_game.induct)
  case (created rid ps uuid now g)
  then show ?case by (rule createGame_inv)
next
  case (moved g r h pid x y t1 t2 t3 r' h')
  then show ?case using makeMove_inv by blast
next
  case (reloaded g now row games rid g')
  then show ?case using reload_inv by blast
qed

text \<open>
  C3. Let the move be valid on a state the program holds (created, advanced by moves, or
  read back from storage). Then the coordinates are integers \<open>i\<close> and \<open>j\<close>, and \<open>makeMove\<close>
  succeeds with a state at a fresh reference while every object of the heap, the input
  state among them, stays as it was. In the new state the cell in row \<open>i\<close> and column \<open>j\<close>
  holds the key of the mover, who is the current player of the input state, and every
  other cell is as before; the history is the old one followed by a move numbered one more
  than the old length, and its sequence numbers are strictly increasing. A won triple
  exists exactly when the mover holds a complete triple. If so, the status is \<open>finished\<close>
  and the winner is the mover's id; if not and the board is full, the status is \<open>draw\<close>
  and the winner is \<open>null\<close>; otherwise the status is \<open>playing\<close>, the winner is \<open>null\<close>, and
  the current player is \<open>player2\<close> after \<open>player1\<close> and \<open>player1\<close> after \<open>player2\<close>.
\<close>

theorem makeMove_applies_valid_move:
  assumes "r < length h" and "reachable_game (h ! r)"
    and "validateMove h r pid x y = Inr (Valid, h0)"
  shows "\<exists>g' i j. x = Whole i \<and> y = Whole j
     \<and> makeMove h r pid x y t1 t2 t3 = Inr (Success (length h), h @ [g'])
     \<and> (\<forall>q < length h. (h @ [g']) ! q = h ! q)
     \<and> is_current_player (h ! r) pid
     \<and> wf_board (board g')
     \<and> board g' = place (board (h ! r)) (nat i) (nat j) (currentPlayer (h ! r))
     \<and> (\<forall>a < 3. \<forall>b < 3. board g' ! a ! b =
           (if a = nat i \<and> b = nat j then Some (currentPlayer (h ! r)) else board (h ! r) ! a ! b))
     \<and> moveHistory g' = moveHistory (h ! r) @
           [\<lparr> move_playerId = pid, playerKey = currentPlayer (h ! r), move_x = x, move_y = y,
              timestamp = t2, moveNumber = length (moveHistory (h ! r)) + 1 \<rparr>]
     \<and> sorted_wrt (<) (map moveNumber (moveHistory g'))
     \<and> (has_winning_triple (board g') \<longleftrightarrow> owns_triple (board g') (currentPlayer (h ! r)))
     \<and> (if has_winning_triple (board g')
        then status g' = ''finished'' \<and> winner g' = Some pid
        else if board_full (board g')
        then status g' = ''draw'' \<and> winner g' = None
        else status g' = ''playing'' \<and> winner g' = None
           \<and> (currentPlayer (h ! r) = player1 \<longrightarrow> currentPlayer g' = player2)
           \<and> (currentPlayer (h ! r) = player2 \<longrightarrow> currentPlayer g' = player1))"
proof -
  let ?g = "h ! r"
  from assms(2) have inv: "game_inv ?g"
    by (rule reachable_game_inv)
  then have wf: "wf_board (board ?g)" and nm: "numbered ?g"
    by (simp_all add: game_inv_def)
  note d = validateMove_ValidD [OF assms(1) wf assms(3)]
  from inv d(1) have old: "\<not> has_winning_triple (board ?g)" and w: "winner ?g = None"
    by (simp_all add: game_inv_def)
  from d(3) obtain i where i: "x = Whole i" "index_of x = nat i" "nat i < 3"
    by (rule in_bounds_Whole)
  from d(4) obtain j where j: "y = Whole j" "index_of y = nat j" "nat j < 3"
    by (rule in_bounds_Whole)
  let ?b' = "place (board ?g) (nat i) (nat j) (currentPlayer ?g)"
  let ?m = "\<lparr> move_playerId = pid, playerKey = currentPlayer ?g, move_x = x, move_y = y,
              timestamp = t2, moveNumber = length (moveHistory ?g) + 1 \<rparr>"
  let ?s2 = "?g \<lparr> board := ?b', lastMoveAt := Some t1, moveHistory := moveHistory ?g @ [?m] \<rparr>"
  let ?g' = "if has_winning_triple ?b'
             then ?s2 \<lparr> status := ''finished'', winner := Some pid, finishedAt := Some t3 \<rparr>
             else if board_full ?b'
             then ?s2 \<lparr> status := ''draw'', finishedAt := Some t3 \<rparr>
             else ?s2 \<lparr> currentPlayer := other_player (currentPlayer ?g) \<rparr>"
  have res: "makeMove h r pid x y t1 t2 t3 = Inr (Success (length h), h @ [?g'])"
    using makeMove_valid_result [OF assms(1) wf assms(3) old, of t1 t2 t3]
    by (simp add: i(2) j(2) new_move_def)
  have keep: "\<forall>q < length h. (h @ [?g']) ! q = h ! q"
    by (simp add: nth_append)
  have brd: "board ?g' = ?b'"
    by simp
  have wf': "wf_board (board ?g')"
    unfolding brd using wf by (rule wf_board_place)
  have cells: "\<forall>a < 3. \<forall>b < 3. board ?g' ! a ! b =
           (if a = nat i \<and> b = nat j then Some (currentPlayer ?g) else board ?g ! a ! b)"
    unfolding brd using nth_place [OF wf _ _ i(3) j(3)] by simp
  have hist: "moveHistory ?g' = moveHistory ?g @ [?m]"
    by simp
  have "numbered ?g'"
    using numbered_snoc [OF nm, of ?g' pid x y t2] hist by (simp add: new_move_def)
  then have srt: "sorted_wrt (<) (map moveNumber (moveHistory ?g'))"
    by (rule sorted_numbered)
  have own: "has_winning_triple (board ?g') \<longleftrightarrow> owns_triple (board ?g') (currentPlayer ?g)"
    unfolding brd
    using won_after_place_owned [OF wf i(3) j(3) old] owns_triple_won by blast
  have out: "if has_winning_triple (board ?g')
        then status ?g' = ''finished'' \<and> winner ?g' = Some pid
        else if board_full (board ?g')
        then status ?g' = ''draw'' \<and> winner ?g' = None
        else status ?g' = ''playing'' \<and> winner ?g' = None
           \<and> (currentPlayer ?g = player1 \<longrightarrow> currentPlayer ?g' = player2)
           \<and> (currentPlayer ?g = player2 \<longrightarrow> currentPlayer ?g' = player1)"
    using w d(1) by (cases "currentPlayer ?g") (simp_all add: other_player_def)
  from i(1) j(1) res keep d(2) wf' brd cells hist srt own out show ?thesis
    by blast
qed

text \<open>
  C4. Whenever validation fails, \<open>makeMove\<close> returns an unsuccessful result carrying the
  reason and the message of the validation, and the heap is the one it was given: board,
  current player and move history of the game are unchanged.
\<close>

theorem makeMove_rejection_keeps_state:
  assumes "r < length h" and "validateMove h r pid x y = Inr (Invalid reason message, h0)"
  shows "\<exists>h'. makeMove h r pid x y t1 t2 t3 = Inr (Failure reason message, h')
           \<and> h' = h
           \<and> board (h' ! r) = board (h ! r)
           \<and> currentPlayer (h' ! r) = currentPlayer (h ! r)
           \<and> moveHistory (h' ! r) = moveHistory (h ! r)"
  using assms validateMove_same_heap [OF assms(2)] by (simp add: makeMove_def)

lemmas demo_defs = demo_state_def demo_players_def demo_move_def fresh_state_def
  midgame_state_def stale_state_def corner_free_state_def

lemmas board_eval = wf_board_def is_current_player_def in_bounds_def target_empty_def
  has_winning_triple_def all_triples_eq line_won_def board_full_def place_def occupant_def
  cells_of_def

text \<open>
  C1 at concrete inputs: accepted moves and one rejection for each reason. In
  \<open>stale_state\<close> the cell \<open>(2, 0)\<close> is free while \<open>(0, 0)\<close> and \<open>(0, 2)\<close> are taken; in
  \<open>corner_free_state\<close> the cell \<open>(0, 1)\<close> is taken while \<open>(0, 0)\<close> is free.
\<close>

theorem validateMove_accepts_iff_witness:
  "0 < length [fresh_state] \<and> wf_board (board ([fresh_state] ! 0))
   \<and> validateMove [fresh_state] 0 ''alice'' (Whole 1) (Whole 1) = Inr (Valid, [fresh_state])
   \<and> validateMove [fresh_state \<lparr> status := ''finished'' \<rparr>] 0 ''alice'' (Whole 1) (Whole 1)
       = Inr (Invalid ''GAME_NOT_ACTIVE'' ''Game is not currently active'',
              [fresh_state \<lparr> status := ''finished'' \<rparr>])
   \<and> validateMove [fresh_state] 0 ''bob'' (Whole 1) (Whole 1)
       = Inr (Invalid ''NOT_YOUR_TURN'' ''It is not your turn'', [fresh_state])
   \<and> validateMove [fresh_state] 0 ''alice'' (Whole 3) (Whole 0)
       = Inr (Invalid ''INVALID_COORDINATES'' ''Invalid board coordinates'', [fresh_state])
   \<and> validateMove [fresh_state] 0 ''alice'' NotInteger (Whole 0)
       = Inr (Invalid ''INVALID_COORDINATES'' ''Invalid board coordinates'', [fresh_state])
   \<and> validateMove [stale_state] 0 ''alice'' (Whole 2) (Whole 0) = Inr (Valid, [stale_state])
   \<and> validateMove [stale_state] 0 ''alice'' (Whole 0) (Whole 2)
       = Inr (Invalid ''CELL_OCCUPIED'' ''Cell is already occupied'', [stale_state])
   \<and> validateMove [corner_free_state] 0 ''alice'' (Whole 0) (Whole 1)
       = Inr (Invalid ''CELL_OCCUPIED'' ''Cell is already occupied'', [corner_free_state])
   \<and> validateMove [corner_free_state] 0 ''alice'' (Whole 0) (Whole 0)
       = Inr (Valid, [corner_free_state])"
proof -
  have r: "0 < length [g]" for g :: game_state
    by simp
  have wf: "wf_board (board ([fresh_state] ! 0))"
    "wf_board (board ([fresh_state \<lparr> status := ''finished'' \<rparr>] ! 0))"
    "wf_board (board ([stale_state] ! 0))" "wf_board (board ([corner_free_state] ! 0))"
    by (simp_all add: demo_defs wf_board_def)
  show ?thesis
    using wf(1)
      validateMove_accepts_iff [OF r wf(1), of "''alice''" "Whole 1" "Whole 1"]
      validateMove_accepts_iff [OF r wf(2), of "''alice''" "Whole 1" "Whole 1"]
      validateMove_accepts_iff [OF r wf(1), of "''bob''" "Whole 1" "Whole 1"]
      validateMove_accepts_iff [OF r wf(1), of "''alice''" "Whole 3" "Whole 0"]
      validateMove_accepts_iff [OF r wf(1), of "''alice''" NotInteger "Whole 0"]
      validateMove_accepts_iff [OF r wf(3), of "''alice''" "Whole 2" "Whole 0"]
      validateMove_accepts_iff [OF r wf(3), of "''alice''" "Whole 0" "Whole 2"]
      validateMove_accepts_iff [OF r wf(4), of "''alice''" "Whole 0" "Whole 1"]
      validateMove_accepts_iff [OF r wf(4), of "''alice''" "Whole 0" "Whole 0"]
    by (simp add: demo_defs board_eval)
qed

text \<open>C2 at a board with a won top row and at a board without a won triple.\<close>

theorem checkWinner_detects_triple_witness:
  "wf_board (board stale_state)
   \<and> checkWinner (board stale_state) = Inr (Some player2)
   \<and> line_won (board stale_state) ((0, 0), (0, 1), (0, 2))
   \<and> wf_board (board midgame_state)
   \<and> checkWinner (board midgame_state) = Inr None"
proof -
  have wf: "wf_board (board stale_state)" "wf_board (board midgame_state)"
    by (simp_all add: demo_defs wf_board_def)
  show ?thesis
    using wf checkWinner_detects_triple [OF wf(1)] checkWinner_detects_triple [OF wf(2)]
    by (auto simp: demo_defs board_eval)
qed

text \<open>C10 at a board whose top row belongs to \<open>player2\<close>.\<close>

theorem getWinningCombination_agrees_witness:
  "wf_board (board stale_state)
   \<and> checkWinner (board stale_state) = Inr (Some player2)
   \<and> getWinningCombination (board stale_state) = Inr (Some ((0, 0), (0, 1), (0, 2)))
   \<and> cells_of (board stale_state) ((0, 0), (0, 1), (0, 2))
       = [Some player2, Some player2, Some player2]"
proof -
  have wf: "wf_board (board stale_state)"
    by (simp add: demo_defs wf_board_def)
  have gw: "getWinningCombination (board stale_state) = Inr (Some ((0, 0), (0, 1), (0, 2)))"
    by (simp add: demo_defs getWinningCombination_def WINNING_COMBINATIONS_def cell_at_def)
  show ?thesis
    using wf gw getWinningCombination_agrees [OF wf]
    by (auto simp: demo_defs board_eval)
qed

text \<open>C4 at a move by the player whose turn it is not.\<close>

theorem makeMove_rejection_keeps_state_witness:
  "0 < length [midgame_state]
   \<and> validateMove [midgame_state] 0 ''bob'' (Whole 2) (Whole 2)
       = Inr (Invalid ''NOT_YOUR_TURN'' ''It is not your turn'', [midgame_state])
   \<and> makeMove [midgame_state] 0 ''bob'' (Whole 2) (Whole 2) 5 6 7
       = Inr (Failure ''NOT_YOUR_TURN'' ''It is not your turn'', [midgame_state])"
proof -
  have r: "0 < length [midgame_state]"
    by simp
  have v: "validateMove [midgame_state] 0 ''bob'' (Whole 2) (Whole 2)
             = Inr (Invalid ''NOT_YOUR_TURN'' ''It is not your turn'', [midgame_state])"
    by (simp add: validateMove_def demo_defs)
  show ?thesis
    using r v makeMove_rejection_keeps_state [OF r v, of 5 6 7] by auto
qed


lemma play_reachable:
  "reachable_game g \<Longrightarrow> play g ms = Inr g' \<Longrightarrow> reachable_game g'"
proof (induction ms arbitrary: g)
  case Nil
  then show ?case by simp
next
  case (Cons m ms)
  obtain pid i j where m: "m = (pid, i, j)"
    by (cases m)
  define t where "t = int (length (moveHistory g)) + 1"
  define res where "res = makeMove [g] 0 pid (Whole i) (Whole j) t t t"
  from Cons.prems(2) obtain r' h' where mk: "res = Inr (Success r', h')"
    and rest: "play (h' ! r') ms = Inr g'"
    unfolding m play.simps Let_def t_def [symmetric] res_def [symmetric]
    by (cases res) (auto split: move_result.splits)
  have "reachable_game (h' ! r')"
    using reachable_game.moved [OF Cons.prems(1), of 0 "[g]" pid "Whole i" "Whole j" t t t r' h'] mk
    by (simp add: res_def)
  then show ?case
    using Cons.IH rest by blast
qed

lemma game_after_reachable:
  assumes "\<not> isl (case first_game of Inl e \<Rightarrow> Inl e | Inr g \<Rightarrow> play g ms)"
  shows "reachable_game (game_after ms)"
proof (cases first_game)
  case (Inl e)
  from assms have False
    unfolding Inl by simp
  then show ?thesis ..
next
  case (Inr g)
  then have g: "reachable_game g"
    unfolding first_game_def by (rule reachable_game.created)
  from assms obtain g' where g': "play g ms = Inr g'"
    unfolding Inr by (cases "play g ms") simp_all
  have "game_after ms = g'"
    unfolding game_after_def Inr by (simp add: g')
  with play_reachable [OF g g'] show ?thesis
    by simp
qed

lemma validateMove_accepted:
  assumes "wf_board (board g)" and "status g = ''playing''" and "is_current_player g pid"
    and "in_bounds x" and "in_bounds y" and "target_empty g x y"
  shows "validateMove [g] 0 pid x y = Inr (Valid, [g])"
  using assms validateMove_wf [of 0 "[g]" pid x y] by simp

text \<open>
  C3 on the game of Alice and Bob: Alice's opening move to \<open>(2, 1)\<close> passes the turn to
  Bob, whose move to \<open>(1, 2)\<close> passes it back; Alice completes her top row and wins; Bob
  completes his middle row and wins; the ninth move fills the board without a won triple.
\<close>

theorem makeMove_applies_valid_move_witness:
  "0 < length [game_after []] \<and> reachable_game ([game_after []] ! 0)
   \<and> validateMove [game_after []] 0 ''alice'' (Whole 2) (Whole 1) = Inr (Valid, [game_after []])
   \<and> (\<exists>g'. makeMove [game_after []] 0 ''alice'' (Whole 2) (Whole 1) 1 1 1
               = Inr (Success 1, [game_after [], g'])
          \<and> board g' = [[None, None, None], [None, None, None], [None, Some player1, None]]
          \<and> status g' = ''playing'' \<and> winner g' = None \<and> currentPlayer g' = player2
          \<and> map moveNumber (moveHistory g') = [1])
   \<and> reachable_game ([game_after [(''alice'', 2, 1)]] ! 0)
   \<and> validateMove [game_after [(''alice'', 2, 1)]] 0 ''bob'' (Whole 1) (Whole 2)
        = Inr (Valid, [game_after [(''alice'', 2, 1)]])
   \<and> (\<exists>g'. makeMove [game_after [(''alice'', 2, 1)]] 0 ''bob'' (Whole 1) (Whole 2) 2 2 2
               = Inr (Success 1, [game_after [(''alice'', 2, 1)], g'])
          \<and> board g' = [[None, None, None], [None, None, Some player2], [None, Some player1, None]]
          \<and> status g' = ''playing'' \<and> winner g' = None \<and> currentPlayer g' = player1
          \<and> map moveNumber (moveHistory g') = [1, 2])
   \<and> reachable_game ([game_after two_rows] ! 0)
   \<and> validateMove [game_after two_rows] 0 ''alice'' (Whole 0) (Whole 2)
        = Inr (Valid, [game_after two_rows])
   \<and> (\<exists>g'. makeMove [game_after two_rows] 0 ''alice'' (Whole 0) (Whole 2) 5 5 5
               = Inr (Success 1, [game_after two_rows, g'])
          \<and> board g' = [[Some player1, Some player1, Some player1],
                        [Some player2, Some player2, None], [None, None, None]]
          \<and> status g' = ''finished'' \<and> winner g' = Some ''alice''
          \<and> map moveNumber (moveHistory g') = [1, 2, 3, 4, 5])
   \<and> reachable_game ([game_after bob_to_win] ! 0)
   \<and> validateMove [game_after bob_to_win] 0 ''bob'' (Whole 1) (Whole 2)
        = Inr (Valid, [game_after bob_to_win])
   \<and> (\<exists>g'. makeMove [game_after bob_to_win] 0 ''bob'' (Whole 1) (Whole 2) 6 6 6
               = Inr (Success 1, [game_after bob_to_win, g'])
          \<and> board g' = [[Some player1, Some player1, None],
                        [Some player2, Some player2, Some player2], [None, None, Some player1]]
          \<and> status g' = ''finished'' \<and> winner g' = Some ''bob'')
   \<and> reachable_game ([game_after eight_moves] ! 0)
   \<and> validateMove [game_after eight_moves] 0 ''alice'' (Whole 2) (Whole 2)
        = Inr (Valid, [game_after eight_moves])
   \<and> (\<exists>g'. makeMove [game_after eight_moves] 0 ''alice'' (Whole 2) (Whole 2) 9 9 9
               = Inr (Success 1, [game_after eight_moves, g'])
          \<and> board g' = [[Some player1, Some player2, Some player1],
                        [Some player1, Some player2, Some player2],
                        [Some player2, Some player1, Some player1]]
          \<and> status g' = ''draw'' \<and> winner g' = None
          \<and> map moveNumber (moveHistory g') = [1, 2, 3, 4, 5, 6, 7, 8, 9])"
proof -
  have r: "0 < length [g]" for g :: game_state
    by simp
  have bounds: "in_bounds (Whole 0)" "in_bounds (Whole 1)" "in_bounds (Whole 2)"
    by (simp_all add: in_bounds_def)
  have reach: "reachable_game ([game_after ms] ! 0)"
    if "\<not> isl (case first_game of Inl e \<Rightarrow> Inl e | Inr g \<Rightarrow> play g ms)" for ms
    using game_after_reachable [OF that] by simp
  have wf: "wf_board (board (game_after ms))" if "reachable_game ([game_after ms] ! 0)" for ms
    using reachable_game_inv [of "game_after ms"] that by (simp add: game_inv_def)

  have r1: "reachable_game ([game_after []] ! 0)"
    by (rule reach) code_simp
  have f1: "status (game_after []) = ''playing''" "is_current_player (game_after []) ''alice''"
    "target_empty (game_after []) (Whole 2) (Whole 1)"
    "currentPlayer (game_after []) = player1"
    "place (board (game_after [])) 2 1 player1
       = [[None, None, None], [None, None, None], [None, Some player1, None]]"
    "\<not> has_winning_triple [[None, None, None], [None, None, None], [None, Some player1, None]]"
    "\<not> board_full [[None, None, None], [None, None, None], [None, Some player1, None]]"
    "map moveNumber (moveHistory (game_after [])) = []"
    by code_simp+
  have v1: "validateMove [game_after []] 0 ''alice'' (Whole 2) (Whole 1) = Inr (Valid, [game_after []])"
    by (rule validateMove_accepted [OF wf [OF r1] f1(1,2) bounds(3,2) f1(3)])
  have m1: "\<exists>g'. makeMove [game_after []] 0 ''alice'' (Whole 2) (Whole 1) 1 1 1
               = Inr (Success 1, [game_after [], g'])
          \<and> board g' = [[None, None, None], [None, None, None], [None, Some player1, None]]
          \<and> status g' = ''playing'' \<and> winner g' = None \<and> currentPlayer g' = player2
          \<and> map moveNumber (moveHistory g') = [1]"
    using makeMove_applies_valid_move [OF r r1 v1, of 1 1 1] f1(4-)
    by auto

  have r2: "reachable_game ([game_after [(''alice'', 2, 1)]] ! 0)"
    by (rule reach) code_simp
  have f2: "status (game_after [(''alice'', 2, 1)]) = ''playing''"
    "is_current_player (game_after [(''alice'', 2, 1)]) ''bob''"
    "target_empty (game_after [(''alice'', 2, 1)]) (Whole 1) (Whole 2)"
    "currentPlayer (game_after [(''alice'', 2, 1)]) = player2"
    "place (board (game_after [(''alice'', 2, 1)])) 1 2 player2
       = [[None, None, None], [None, None, Some player2], [None, Some player1, None]]"
    "\<not> has_winning_triple [[None, None, None], [None, None, Some player2], [None, Some player1, None]]"
    "\<not> board_full [[None, None, None], [None, None, Some player2], [None, Some player1, None]]"
    "map moveNumber (moveHistory (game_after [(''alice'', 2, 1)])) = [1]"
    by code_simp+
  have v2: "validateMove [game_after [(''alice'', 2, 1)]] 0 ''bob'' (Whole 1) (Whole 2)
              = Inr (Valid, [game_after [(''alice'', 2, 1)]])"
    by (rule validateMove_accepted [OF wf [OF r2] f2(1,2) bounds(2,3) f2(3)])
  have m2: "\<exists>g'. makeMove [game_after [(''alice'', 2, 1)]] 0 ''bob'' (Whole 1) (Whole 2) 2 2 2
               = Inr (Success 1, [game_after [(''alice'', 2, 1)], g'])
          \<and> board g' = [[None, None, None], [None, None, Some player2], [None, Some player1, None]]
          \<and> status g' = ''playing'' \<and> winner g' = None \<and> currentPlayer g' = player1
          \<and> map moveNumber (moveHistory g') = [1, 2]"
    using makeMove_applies_valid_move [OF r r2 v2, of 2 2 2] f2(4-)
    by auto

  have r3: "reachable_game ([game_after two_rows] ! 0)"
    by (rule reach) code_simp
  have f3: "status (game_after two_rows) = ''playing''"
    "is_current_player (game_after two_rows) ''alice''"
    "target_empty (game_after two_rows) (Whole 0) (Whole 2)"
    "currentPlayer (game_after two_rows) = player1"
    "place (board (game_after two_rows)) 0 2 player1
       = [[Some player1, Some player1, Some player1],
          [Some player2, Some player2, None], [None, None, None]]"
    "has_winning_triple [[Some player1, Some player1, Some player1],
          [Some player2, Some player2, None], [None, None, None]]"
    "map moveNumber (moveHistory (game_after two_rows)) = [1, 2, 3, 4]"
    by code_simp+
  have v3: "validateMove [game_after two_rows] 0 ''alice'' (Whole 0) (Whole 2)
              = Inr (Valid, [game_after two_rows])"
    by (rule validateMove_accepted [OF wf [OF r3] f3(1,2) bounds(1,3) f3(3)])
  have m3: "\<exists>g'. makeMove [game_after two_rows] 0 ''alice'' (Whole 0) (Whole 2) 5 5 5
               = Inr (Success 1, [game_after two_rows, g'])
          \<and> board g' = [[Some player1, Some player1, Some player1],
                        [Some player2, Some player2, None], [None, None, None]]
          \<and> status g' = ''finished'' \<and> winner g' = Some ''alice''
          \<and> map moveNumber (moveHistory g') = [1, 2, 3, 4, 5]"
    using makeMove_applies_valid_move [OF r r3 v3, of 5 5 5] f3(4-)
    by auto

  have r4: "reachable_game ([game_after bob_to_win] ! 0)"
    by (rule reach) code_simp
  have f4: "status (game_after bob_to_win) = ''playing''"
    "is_current_player (game_after bob_to_win) ''bob''"
    "target_empty (game_after bob_to_win) (Whole 1) (Whole 2)"
    "currentPlayer (game_after bob_to_win) = player2"
    "place (board (game_after bob_to_win)) 1 2 player2
       = [[Some player1, Some player1, None],
          [Some player2, Some player2, Some player2], [None, None, Some player1]]"
    "has_winning_triple [[Some player1, Some player1, None],
          [Some player2, Some player2, Some player2], [None, None, Some player1]]"
    by code_simp+
  have v4: "validateMove [game_after bob_to_win] 0 ''bob'' (Whole 1) (Whole 2)
              = Inr (Valid, [game_after bob_to_win])"
    by (rule validateMove_accepted [OF wf [OF r4] f4(1,2) bounds(2,3) f4(3)])
  have m4: "\<exists>g'. makeMove [game_after bob_to_win] 0 ''bob'' (Whole 1) (Whole 2) 6 6 6
               = Inr (Success 1, [game_after bob_to_win, g'])
          \<and> board g' = [[Some player1, Some player1, None],
                        [Some player2, Some player2, Some player2], [None, None, Some player1]]
          \<and> status g' = ''finished'' \<and> winner g' = Some ''bob''"
    using makeMove_applies_valid_move [OF r r4 v4, of 6 6 6] f4(4-)
    by auto

  have r5: "reachable_game ([game_after eight_moves] ! 0)"
    by (rule reach) code_simp
  have f5: "status (game_after eight_moves) = ''playing''"
    "is_current_player (game_after eight_moves) ''alice''"
    "target_empty (game_after eight_moves) (Whole 2) (Whole 2)"
    "currentPlayer (game_after eight_moves) = player1"
    "place (board (game_after eight_moves)) 2 2 player1
       = [[Some player1, Some player2, Some player1],
          [Some player1, Some player2, Some player2],
          [Some player2, Some player1, Some player1]]"
    "\<not> has_winning_triple [[Some player1, Some player2, Some player1],
          [Some player1, Some player2, Some player2],
          [Some player2, Some player1, Some player1]]"
    "board_full [[Some player1, Some player2, Some player1],
          [Some player1, Some player2, Some player2],
          [Some player2, Some player1, Some player1]]"
    "map moveNumber (moveHistory (game_after eight_moves)) = [1, 2, 3, 4, 5, 6, 7, 8]"
    by code_simp+
  have v5: "validateMove [game_after eight_moves] 0 ''alice'' (Whole 2) (Whole 2)
              = Inr (Valid, [game_after eight_moves])"
    by (rule validateMove_accepted [OF wf [OF r5] f5(1,2) bounds(3,3) f5(3)])
  have m5: "\<exists>g'. makeMove [game_after eight_moves] 0 ''alice'' (Whole 2) (Whole 2) 9 9 9
               = Inr (Success 1, [game_after eight_moves, g'])
          \<and> board g' = [[Some player1, Some player2, Some player1],
                        [Some player1, Some player2, Some player2],
                        [Some player2, Some player1, Some player1]]
          \<and> status g' = ''draw'' \<and> winner g' = None
          \<and> map moveNumber (moveHistory g') = [1, 2, 3, 4, 5, 6, 7, 8, 9]"
    using makeMove_applies_valid_move [OF r r5 v5, of 9 9 9] f5(4-)
    by auto

  from r [of "game_after []"] r1 v1 m1 r2 v2 m2 r3 v3 m3 r4 v4 m4 r5 v5 m5 show ?thesis
    by (intro conjI)
qed

section \<open>Chat sanitizer: proofs\<close>

text \<open>
  The tag pattern runs first and leaves a string in which the script pattern cannot match
  any more, so the second replacement never removes anything.
\<close>

lemma set_strip_tags: "set (strip_tags s) \<subseteq> set s" "set (skip_tag s) \<subseteq> set s"
  by (induction s and s rule: strip_tags_skip_tag.induct) auto

lemma no_tag_strip_tags: "no_tag (strip_tags s)" "no_tag (skip_tag s)"
  using set_strip_tags(1)
  by (induction s and s rule: strip_tags_skip_tag.induct) auto

lemma to_lower_fixed: "to_lower c \<notin> set ''abcdefghijklmnopqrstuvwxyz'' \<Longrightarrow> to_lower c = c"
  by (auto simp: to_lower_def split: option.splits if_splits)

lemma to_lower_lt: "to_lower c = CHR ''<'' \<Longrightarrow> c = CHR ''<''"
proof -
  assume a: "to_lower c = CHR ''<''"
  then have "to_lower c \<notin> set ''abcdefghijklmnopqrstuvwxyz''"
    by simp
  then have "to_lower c = c"
    by (rule to_lower_fixed)
  with a show ?thesis by simp
qed

lemma to_lower_gt: "CHR ''>'' = to_lower c \<Longrightarrow> c = CHR ''>''"
proof -
  assume a: "CHR ''>'' = to_lower c"
  then have "to_lower c \<notin> set ''abcdefghijklmnopqrstuvwxyz''"
    by (simp flip: a)
  then have "to_lower c = c"
    by (rule to_lower_fixed)
  with a show ?thesis by simp
qed

lemma starts_with_close_gt: "starts_with_ci ''</script>'' t \<Longrightarrow> CHR ''>'' \<in> set t"
  by (auto dest: to_lower_gt elim!: starts_with_ci.elims)

lemma close_tag_end_gt: "close_tag_end t = Some n \<Longrightarrow> CHR ''>'' \<in> set t"
proof (induction t arbitrary: n)
  case Nil
  then show ?case by simp
next
  case (Cons c cs)
  then show ?case
    using starts_with_close_gt [of "c # cs"] by (auto split: if_splits)
qed

lemma script_match_tag: "script_match (c # cs) = Some n \<Longrightarrow> c = CHR ''<'' \<and> CHR ''>'' \<in> set cs"
proof -
  assume a: "script_match (c # cs) = Some n"
  then have "to_lower c = CHR ''<''"
    by (simp add: script_match_def split: if_splits)
  then have c: "c = CHR ''<''"
    by (rule to_lower_lt)
  from a obtain m where "close_tag_end (drop 7 (c # cs)) = Some m"
    by (auto simp: script_match_def split: if_splits)
  then have "CHR ''>'' \<in> set (drop 7 (c # cs))"
    by (rule close_tag_end_gt)
  then have "CHR ''>'' \<in> set (c # cs)"
    by (rule in_set_dropD)
  with c show ?thesis by simp
qed

lemma remove_scripts_no_tag: "no_tag t \<Longrightarrow> remove_scripts 0 t = t"
proof (induction t)
  case Nil
  then show ?case by simp
next
  case (Cons c cs)
  then have "script_match (c # cs) = None"
    using script_match_tag [of c cs] by (cases "script_match (c # cs)") auto
  with Cons show ?case by simp
qed

lemma remove_scripts_after_strip_tags: "remove_scripts 0 (strip_tags s) = strip_tags s"
  by (rule remove_scripts_no_tag) (rule no_tag_strip_tags)

text \<open>
  C5, evaluated on the code. The chat text \<open><script>alert(1)</script>hello\<close> is sanitized to
  \<open>alert(1)hello\<close>: the two tags are removed, the text between them is not, and nothing is
  left to escape. This is the text that \<open>handleChatMessage\<close> puts into the chat history,
  stores and broadcasts. The specification expects \<open>hello\<close>.
\<close>

theorem sanitizeChatMessage_keeps_script_text:
  "sanitizeChatMessage (JString ''<script>alert(1)</script>hello'') = ''alert(1)hello''
   \<and> map_option (map chat_text \<circ> chatHistory) (map_of (activeRooms bob_chats) ''room-a'')
       = Some [''alert(1)hello'']
   \<and> map chat_text (db_chat_messages bob_chats) = [''alert(1)hello'']
   \<and> emitted bob_chats = emitted (fst bob_joins) @
        [(ToRoom ''room-a'', ''chat-message'', Chat ''bob'' ''alert(1)hello'')]"
  by code_simp

section \<open>Rate limiter: proofs\<close>

lemma minute_filter:
  "length (filter (\<lambda>e. event_type e = ev) (filter (\<lambda>e. now - event_timestamp e < 60000) es))
     = length (filter (\<lambda>e. event_type e = ev \<and> now - event_timestamp e < 60000) es)"
  by (induction es) auto

lemma burst_filter:
  "filter (\<lambda>e. event_type e = ev \<and> now - event_timestamp e < 10000)
          (filter (\<lambda>e. now - event_timestamp e < (60000::int)) es)
     = filter (\<lambda>e. event_type e = ev \<and> now - event_timestamp e < 10000) es"
  by (induction es) auto

lemma checkLimit_verdict:
  "fst (checkLimit rl sid ev now) =
     (\<not> count_reaches (window_count rl sid ev now 60000) (minute_limit rl ev)
      \<and> \<not> count_reaches (window_count rl sid ev now 10000) (burst_limit rl ev))"
proof (cases "map_of (clients rl) sid")
  case None
  then show ?thesis
    unfolding checkLimit_def Let_def window_count_def minute_limit_def [symmetric]
      burst_limit_def [symmetric]
    by simp
next
  case (Some d)
  then show ?thesis
    unfolding checkLimit_def Let_def window_count_def minute_limit_def [symmetric]
      burst_limit_def [symmetric]
    by (simp add: minute_filter burst_filter del: filter_filter)
qed

text \<open>
  With numeric limits \<open>L\<close> per minute and \<open>B\<close> per ten seconds, an event is admitted
  exactly when fewer than \<open>L\<close> events of its type were recorded in the last 60 seconds and
  fewer than \<open>B\<close> in the last 10 seconds, both counted before the new event is recorded.
\<close>

lemma checkLimit_admits_iff:
  assumes "minute_limit rl ev = Num L" and "burst_limit rl ev = Num B"
  shows "fst (checkLimit rl sid ev now) \<longleftrightarrow>
           int (window_count rl sid ev now 60000) < L \<and> int (window_count rl sid ev now 10000) < B"
  by (auto simp: checkLimit_verdict assms count_reaches_def)

text \<open>
  An event type that neither table lists and that is not the name of a member of
  \<open>Object.prototype\<close> gets the default limits 60 and 20.
\<close>

lemma default_limits:
  assumes "map_of (limits new_SocketRateLimiter) ev = None"
    and "map_of (burstLimits new_SocketRateLimiter) ev = None"
    and "ev \<notin> set Object_prototype_properties"
  shows "minute_limit new_SocketRateLimiter ev = Num 60"
    and "burst_limit new_SocketRateLimiter ev = Num 20"
  using assms
  by (simp_all add: minute_limit_def burst_limit_def property_def js_or_def
      new_SocketRateLimiter_def)

lemma inherited_not_listed:
  "list_all (\<lambda>k. map_of (limits new_SocketRateLimiter) k = None
                  \<and> map_of (burstLimits new_SocketRateLimiter) k = None)
            Object_prototype_properties"
  by (simp add: new_SocketRateLimiter_def Object_prototype_properties_def)

text \<open>
  An event type named like a member of \<open>Object.prototype\<close> finds that member in both
  tables; it is truthy, so the default is not taken, and no count reaches it.
\<close>

lemma inherited_limits:
  assumes "limits rl = limits new_SocketRateLimiter"
    and "burstLimits rl = burstLimits new_SocketRateLimiter"
    and "ev \<in> set Object_prototype_properties"
  shows "minute_limit rl ev = Inherited" and "burst_limit rl ev = Inherited"
proof -
  from assms(3) inherited_not_listed
  have "map_of (limits new_SocketRateLimiter) ev = None"
    "map_of (burstLimits new_SocketRateLimiter) ev = None"
    by (auto simp: list_all_iff)
  with assms show "minute_limit rl ev = Inherited" and "burst_limit rl ev = Inherited"
    by (simp_all add: minute_limit_def burst_limit_def property_def js_or_def)
qed

lemma checkLimit_tables:
  "limits (snd (checkLimit rl sid ev now)) = limits rl"
  "burstLimits (snd (checkLimit rl sid ev now)) = burstLimits rl"
  by (simp_all add: checkLimit_def Let_def handleRateLimit_def split: option.split)

lemma checkLimit_inherited_admits:
  assumes "limits rl = limits new_SocketRateLimiter"
    and "burstLimits rl = burstLimits new_SocketRateLimiter"
    and "ev \<in> set Object_prototype_properties"
  shows "fst (checkLimit rl sid ev now)"
  by (simp add: checkLimit_verdict inherited_limits [OF assms] count_reaches_def)

lemma flood_inherited:
  assumes "limits rl = limits new_SocketRateLimiter"
    and "burstLimits rl = burstLimits new_SocketRateLimiter"
    and "ev \<in> set Object_prototype_properties"
  shows "fst (flood n rl sid ev now) = replicate n True"
  using assms(1,2)
proof (induction n arbitrary: rl)
  case 0
  show ?case by simp
next
  case (Suc n)
  obtain ok rl1 where c: "checkLimit rl sid ev now = (ok, rl1)"
    by (cases "checkLimit rl sid ev now")
  have ok: "ok"
    using checkLimit_inherited_admits [OF Suc.prems assms(3), of sid now] c by simp
  have "limits rl1 = limits new_SocketRateLimiter" "burstLimits rl1 = burstLimits new_SocketRateLimiter"
    using checkLimit_tables [of rl sid ev now] c Suc.prems by simp_all
  then have "fst (flood n rl1 sid ev now) = replicate n True"
    by (rule Suc.IH)
  with c ok show ?case
    by (simp add: split_beta)
qed

text \<open>
  C7, evaluated on the code. \<open>toString\<close> is an event type without an entry in either
  table. Of 61 such events sent by one socket at the same instant to a new limiter every
  one is admitted, where the default limits admit 20.
\<close>

theorem checkLimit_toString_never_limited:
  "fst (flood 61 new_SocketRateLimiter ''socket-1'' ''toString'' 0) = replicate 61 True"
  by (rule flood_inherited) (simp_all add: Object_prototype_properties_def)

text \<open>
  For comparison, an unlisted event type that is not a member of \<open>Object.prototype\<close>:
  the twenty-first event of a burst is rejected.
\<close>

lemma checkLimit_unlisted_limited:
  "fst (flood 21 new_SocketRateLimiter ''socket-1'' ''ping'' 0) = replicate 20 True @ [False]"
  by code_simp

text \<open>
  An admitted event is recorded, a rejected one is not.
\<close>

lemma checkLimit_count_after:
  assumes "0 < w" "w \<le> 60000"
  shows "window_count (snd (checkLimit rl sid ev now)) sid ev now w =
           window_count rl sid ev now w + (if fst (checkLimit rl sid ev now) then 1 else 0)"
proof (cases "map_of (clients rl) sid")
  case None
  then show ?thesis
    using assms(1)
    by (simp add: checkLimit_def Let_def window_count_def handleRateLimit_def update_conv')
next
  case (Some d)
  have "filter (\<lambda>e. event_type e = ev \<and> now - event_timestamp e < w)
             (filter (\<lambda>e. now - event_timestamp e < 60000) es)
           = filter (\<lambda>e. event_type e = ev \<and> now - event_timestamp e < w) es" for es :: "rl_event list"
    using assms(2) by (induction es) auto
  note f = this [of "events d"]
  show ?thesis
    using Some assms(1)
    by (simp add: checkLimit_def Let_def window_count_def handleRateLimit_def update_conv' f
        del: filter_filter)
qed

lemma window_count_mono:
  assumes "t \<le> t'"
  shows "window_count rl sid ev t' w \<le> window_count rl sid ev t w"
proof (cases "map_of (clients rl) sid")
  case None
  then show ?thesis by (simp add: window_count_def)
next
  case (Some d)
  have "length (filter (\<lambda>e. event_type e = ev \<and> t' - event_timestamp e < w) es)
          \<le> length (filter (\<lambda>e. event_type e = ev \<and> t - event_timestamp e < w) es)" for es :: "rl_event list"
    using assms by (induction es) auto
  with Some show ?thesis by (simp add: window_count_def)
qed

lemma checkLimit_other_socket:
  assumes "sid' \<noteq> sid"
  shows "window_count (snd (checkLimit rl sid' ev' t)) sid ev t w = window_count rl sid ev t w"
  using assms
  by (cases "map_of (clients rl) sid'")
     (simp_all add: checkLimit_def Let_def window_count_def handleRateLimit_def update_conv')

lemma checkLimit_other_type:
  assumes "ev' \<noteq> ev" and "w \<le> 60000"
  shows "window_count (snd (checkLimit rl sid ev' t)) sid ev t w = window_count rl sid ev t w"
proof (cases "map_of (clients rl) sid")
  case None
  then show ?thesis
    using assms(1)
    by (simp add: checkLimit_def Let_def window_count_def handleRateLimit_def update_conv')
next
  case (Some d)
  have "filter (\<lambda>e. event_type e = ev \<and> t - event_timestamp e < w)
             (filter (\<lambda>e. t - event_timestamp e < 60000) es)
           = filter (\<lambda>e. event_type e = ev \<and> t - event_timestamp e < w) es" for es :: "rl_event list"
    using assms(2) by (induction es) auto
  note f = this [of "events d"]
  show ?thesis
    using Some assms(1)
    by (simp add: checkLimit_def Let_def window_count_def handleRateLimit_def update_conv' f
        del: filter_filter)
qed

lemma checkLimit_keeps_bound:
  assumes lim: "minute_limit rl ev = Num L"
    and bound: "int (window_count rl sid ev t 60000) \<le> L"
  shows "int (window_count (snd (checkLimit rl sid' ev' t)) sid ev t 60000) \<le> L"
proof (cases "sid' = sid \<and> ev' = ev")
  case False
  then show ?thesis
    using bound checkLimit_other_socket [of sid' sid rl ev' t ev 60000]
      checkLimit_other_type [of ev' ev 60000 rl sid t]
    by (cases "sid' = sid") auto
next
  case True
  have "fst (checkLimit rl sid ev t) \<Longrightarrow> int (window_count rl sid ev t 60000) < L"
    by (simp add: checkLimit_verdict lim count_reaches_def)
  with True bound show ?thesis
    using checkLimit_count_after [of 60000 rl sid ev t] by auto
qed

lemma minute_limit_checkLimit: "minute_limit (snd (checkLimit rl sid ev t)) ev' = minute_limit rl ev'"
  by (simp add: minute_limit_def checkLimit_tables)

text \<open>
  Over any sequence of calls whose times do not decrease, the number of recorded events
  of one type from one socket within the last 60 seconds never exceeds the minute limit.
\<close>

lemma run_checks_keeps_bound:
  assumes "minute_limit rl ev = Num L"
    and "int (window_count rl sid ev t 60000) \<le> L"
    and "sorted (t # map (\<lambda>(s, e, u). u) calls)"
  shows "int (window_count (run_checks rl calls) sid ev (last (t # map (\<lambda>(s, e, u). u) calls)) 60000) \<le> L"
  using assms
proof (induction calls arbitrary: rl t)
  case Nil
  then show ?case by simp
next
  case (Cons c calls)
  obtain sid' ev' u where c: "c = (sid', ev', u)"
    by (cases c)
  from Cons.prems(3) have tu: "t \<le> u" and srt: "sorted (u # map (\<lambda>(s, e, u). u) calls)"
    by (simp_all add: c)
  have "int (window_count rl sid ev u 60000) \<le> L"
    using Cons.prems(2) window_count_mono [OF tu, of rl sid ev 60000] by linarith
  then have "int (window_count (snd (checkLimit rl sid' ev' u)) sid ev u 60000) \<le> L"
    by (rule checkLimit_keeps_bound [OF Cons.prems(1)])
  moreover have "minute_limit (snd (checkLimit rl sid' ev' u)) ev = Num L"
    using Cons.prems(1) by (simp add: minute_limit_checkLimit)
  ultimately have "int (window_count (run_checks (snd (checkLimit rl sid' ev' u)) calls) sid ev
       (last (u # map (\<lambda>(s, e, u). u) calls)) 60000) \<le> L"
    using srt by (intro Cons.IH)
  then show ?case
    by (simp add: c)
qed


section \<open>Room controller: proofs\<close>

lemma list_all_update:
  "P (k, v) \<Longrightarrow> list_all P al \<Longrightarrow> list_all P (AList.update k v al)"
  by (induction al) auto

lemma list_all_delete: "list_all P al \<Longrightarrow> list_all P (AList.delete k al)"
  by (induction al) auto

lemma list_all_map_of: "list_all P al \<Longrightarrow> map_of al k = Some v \<Longrightarrow> P (k, v)"
  by (auto simp: list_all_iff dest: map_of_SomeD)

lemma length_delete_le: "length (AList.delete k al) \<le> length al"
  by (induction al) auto

lemma length_update_le: "length (AList.update k v al) \<le> Suc (length al)"
  by (induction al) auto

lemma emit_fields [simp]:
  "activeRooms (emit ev st) = activeRooms st"
  "playerRooms (emit ev st) = playerRooms st"
  "db_rooms (emit ev st) = db_rooms st"
  "db_chat_messages (emit ev st) = db_chat_messages st"
  "emitted (emit ev st) = emitted st @ [ev]"
  by (simp_all add: emit_def)

lemma room_error_fields [simp]:
  "activeRooms (room_error sock code st) = activeRooms st"
  "playerRooms (room_error sock code st) = playerRooms st"
  "db_rooms (room_error sock code st) = db_rooms st"
  "emitted (room_error sock code st) = emitted st @ [(ToSocket (socket_id sock), ''room-error'', Code code)]"
  by (simp_all add: room_error_def)

lemma broadcast_fields [simp]:
  "activeRooms (broadcastRoomListUpdate st) = activeRooms st"
  "playerRooms (broadcastRoomListUpdate st) = playerRooms st"
  "db_rooms (broadcastRoomListUpdate st) = db_rooms st"
  by (simp_all add: broadcastRoomListUpdate_def)

lemma save_fields [simp]:
  "activeRooms (saveRoomToDatabase e r st) = activeRooms st"
  "playerRooms (saveRoomToDatabase e r st) = playerRooms st"
  "emitted (saveRoomToDatabase e r st) = emitted st"
  "db_rooms (saveRoomToDatabase e r st) =
     (if env_db_up e then AList.update (room_id r) (row_of r) (db_rooms st) else db_rooms st)"
  by (simp_all add: saveRoomToDatabase_def)

lemma delete_db_fields [simp]:
  "activeRooms (deleteRoomFromDatabase e rid st) = activeRooms st"
  "playerRooms (deleteRoomFromDatabase e rid st) = playerRooms st"
  "emitted (deleteRoomFromDatabase e rid st) = emitted st"
  "db_rooms (deleteRoomFromDatabase e rid st) =
     (if env_db_up e then AList.delete rid (db_rooms st) else db_rooms st)"
  by (simp_all add: deleteRoomFromDatabase_def)

lemma save_chat_fields [simp]:
  "activeRooms (saveChatMessageToDatabase e m st) = activeRooms st"
  "playerRooms (saveChatMessageToDatabase e m st) = playerRooms st"
  "db_rooms (saveChatMessageToDatabase e m st) = db_rooms st"
  "emitted (saveChatMessageToDatabase e m st) = emitted st"
  by (simp_all add: saveChatMessageToDatabase_def)

lemma state_ok_emit: "state_ok (emit ev st) = state_ok st"
  by (simp add: state_ok_def)

lemma state_ok_room_error: "state_ok (room_error sock code st) = state_ok st"
  by (simp add: state_ok_def)

lemma state_ok_broadcast: "state_ok (broadcastRoomListUpdate st) = state_ok st"
  by (simp add: state_ok_def)

lemma state_ok_room: "state_ok st \<Longrightarrow> map_of (activeRooms st) rid = Some r \<Longrightarrow> room_ok r"
  using list_all_map_of [of "\<lambda>(rid, r). room_ok r" "activeRooms st" rid r]
  by (simp add: state_ok_def)

lemma row_of_ok: "room_ok r \<Longrightarrow> 0 \<le> row_max_players (row_of r)"
  by (simp add: room_ok_def row_of_def)

lemma room_ok_leave:
  assumes "room_ok r"
  shows "room_ok (r \<lparr> room_players := AList.delete pid (room_players r),
                       currentPlayers := length (AList.delete pid (room_players r)) \<rparr>)"
  using assms length_delete_le [of pid "room_players r"] by (simp add: room_ok_def)

lemma leaveRoom_ok:
  assumes "state_ok st"
  shows "state_ok (fst (leaveRoom e st sock rid))"
proof (cases "map_of (activeRooms st) rid")
  case None
  with assms show ?thesis by (simp add: leaveRoom_def)
next
  case (Some r)
  have r1: "room_ok (r \<lparr> room_players := AList.delete (player_id_of sock) (room_players r),
                  currentPlayers := length (AList.delete (player_id_of sock) (room_players r)) \<rparr>)"
    using state_ok_room [OF assms Some] by (rule room_ok_leave)
  show ?thesis
    using Some assms r1 row_of_ok [OF r1]
    by (auto simp: leaveRoom_def Let_def state_ok_def
        intro!: list_all_update list_all_delete)
qed

lemma createRoom_ok:
  assumes "state_ok st" and "valid_maxPlayers m"
  shows "state_ok (fst (createRoom e st sock roomName priv pw m))"
  using assms
  by (auto simp: createRoom_def Let_def state_ok_def room_ok_def row_of_def valid_maxPlayers_def
      split: option.splits intro!: list_all_update)

lemma checkGameStart_ok:
  assumes "state_ok st" and "room_ok r"
  shows "state_ok (snd (checkGameStart e st rid r))"
proof -
  have r1: "room_ok (r \<lparr> room_status := ''playing'' \<rparr>)"
    using assms(2) by (simp add: room_ok_def)
  show ?thesis
    using assms(1) r1 row_of_ok [OF r1]
    by (auto simp: checkGameStart_def Let_def state_ok_def intro!: list_all_update)
qed

lemma loadRoom_ok:
  assumes "state_ok st" and "loadRoomFromDatabase e rid st = Some r"
  shows "room_ok r"
proof -
  from assms(2) obtain row where row: "map_of (db_rooms st) rid = Some row"
    and r: "maxPlayers r = row_max_players row" "currentPlayers r = 0" "room_players r = []"
    by (auto simp: loadRoomFromDatabase_def split: if_splits option.splits)
  from assms(1) row have "0 \<le> row_max_players row"
    using list_all_map_of [of "\<lambda>(rid, row). 0 \<le> row_max_players row" "db_rooms st" rid row]
    by (simp add: state_ok_def)
  with r show ?thesis by (simp add: room_ok_def)
qed

lemma room_ok_join:
  assumes "room_ok r" and "\<not> int (currentPlayers r) \<ge> maxPlayers r"
  shows "room_ok (r \<lparr> room_players := AList.update pid p (room_players r),
                       currentPlayers := length (AList.update pid p (room_players r)) \<rparr>)"
  using assms length_update_le [of pid p "room_players r"] by (simp add: room_ok_def)

lemma joinRoom_ok:
  assumes "state_ok st"
  shows "state_ok (fst (joinRoom e st sock rid pname pw))"
proof -
  define found where "found =
     (case map_of (activeRooms st) rid of
        Some r \<Rightarrow> Some (r, st)
      | None \<Rightarrow>
         (case loadRoomFromDatabase e rid st of
            None \<Rightarrow> None
          | Some r \<Rightarrow> Some (r, st \<lparr> activeRooms := AList.update rid r (activeRooms st) \<rparr>)))"
  show ?thesis
  proof (cases found)
    case None
    then show ?thesis
      using assms unfolding joinRoom_def Let_def found_def [symmetric]
      by (simp add: state_ok_room_error)
  next
    case (Some a)
    obtain r st1 where a: "a = (r, st1)" by (cases a)
    have ok: "room_ok r \<and> state_ok st1"
    proof (cases "map_of (activeRooms st) rid")
      case None
      with Some a obtain "loadRoomFromDatabase e rid st = Some r"
        and st1: "st1 = st \<lparr> activeRooms := AList.update rid r (activeRooms st) \<rparr>"
        by (auto simp: found_def split: option.splits)
      then have "room_ok r"
        using loadRoom_ok [OF assms] by simp
      with assms st1 show ?thesis
        by (auto simp: state_ok_def intro!: list_all_update)
    next
      case (Some r')
      with \<open>found = Some a\<close> a have "r = r'" "st1 = st"
        by (simp_all add: found_def)
      with Some assms show ?thesis
        using state_ok_room by blast
    qed
    define reloc where "reloc =
       (case map_of (playerRooms st1) (player_id_of sock) of
          None \<Rightarrow> (st1, sock)
        | Some currentRoom \<Rightarrow>
            if currentRoom \<noteq> [] \<and> currentRoom \<noteq> rid
            then leaveRoom e st1 sock currentRoom
            else (st1, sock))"
    obtain st2 sock2 where reloc: "reloc = (st2, sock2)"
      by (cases reloc)
    have "state_ok (fst reloc)"
      unfolding reloc_def using ok leaveRoom_ok by (simp split: option.split)
    then have st2: "state_ok st2"
      by (simp add: reloc)
    show ?thesis
    proof (cases "int (currentPlayers r) \<ge> maxPlayers r")
      case True
      with Some a ok show ?thesis
        unfolding joinRoom_def Let_def found_def [symmetric]
        by (simp add: state_ok_room_error)
    next
      case False
      let ?p = "\<lparr> rp_id = player_id_of sock, rp_name = pname, rp_socketId = socket_id sock,
                   joinedAt = env_now e, isReady = False \<rparr>"
      let ?r1 = "r \<lparr> room_players := AList.update (player_id_of sock) ?p (room_players r),
                      currentPlayers := length (AList.update (player_id_of sock) ?p (room_players r)) \<rparr>"
      have r1: "room_ok ?r1"
        using ok False by (intro room_ok_join) simp_all
      let ?st6 = "emit (ToSocket (socket_id sock), ''room-joined'', RoomInfo rid (currentPlayers ?r1))
           (emit (ToRoom rid, ''player-joined'',
                  PlayerJoined (player_id_of sock) (currentPlayers ?r1) (maxPlayers ?r1))
             (saveRoomToDatabase e ?r1
               (st2 \<lparr> activeRooms := AList.update rid ?r1 (activeRooms st2),
                       playerRooms := AList.update (player_id_of sock) rid (playerRooms st2) \<rparr>)))"
      have st6: "state_ok ?st6"
        using st2 r1 row_of_ok [OF r1]
        by (auto simp: state_ok_def intro!: list_all_update)
      define started where "started =
         (if currentPlayers ?r1 = 2 \<and> room_status ?r1 = ''waiting''
          then checkGameStart e ?st6 rid ?r1 else (False, ?st6))"
      obtain threw st7 where cg: "started = (threw, st7)"
        by (cases started)
      have "state_ok (snd started)"
      proof (cases "currentPlayers ?r1 = 2 \<and> room_status ?r1 = ''waiting''")
        case True
        have "started = checkGameStart e ?st6 rid ?r1"
          unfolding started_def using True by (rule if_P)
        then show ?thesis
          using checkGameStart_ok [OF st6 r1, of e rid] by (simp only:)
      next
        case False
        have "started = (False, ?st6)"
          unfolding started_def using False by (rule if_not_P)
        then show ?thesis
          using st6 by (simp only: snd_conv)
      qed
      then have st7: "state_ok st7"
        by (simp add: cg)
      show ?thesis
        unfolding joinRoom_def Let_def found_def [symmetric] Some a
          reloc_def [symmetric] prod.case option.case
        using False ok
        unfolding reloc prod.case started_def [symmetric] cg
        using st7
        by (simp add: state_ok_room_error state_ok_broadcast)
    qed
  qed
qed

lemma spectateGame_ok:
  assumes "state_ok st"
  shows "state_ok (fst (spectateGame e st sock rid))"
proof (cases "map_of (activeRooms st) rid")
  case None
  with assms show ?thesis
    by (simp add: spectateGame_def state_ok_room_error)
next
  case (Some r)
  have "room_ok (r \<lparr> spectators := x \<rparr>)" for x
    using state_ok_room [OF assms Some] by (simp add: room_ok_def)
  with Some assms show ?thesis
    by (auto simp: spectateGame_def Let_def state_ok_def intro!: list_all_update)
qed

lemma drop_spectator_ok:
  "list_all (\<lambda>(rid, r). room_ok r) al \<Longrightarrow>
     list_all (\<lambda>(rid, r). room_ok r) (drop_spectator sid al)"
  by (induction sid al rule: drop_spectator.induct) (auto simp: room_ok_def)

lemma handleDisconnect_ok:
  assumes "state_ok st"
  shows "state_ok (fst (handleDisconnect e st sock))"
proof -
  define left where "left =
     (case map_of (playerRooms st) (player_id_of sock) of
        None \<Rightarrow> (st, sock)
      | Some rid \<Rightarrow> if rid \<noteq> [] then leaveRoom e st sock rid else (st, sock))"
  obtain st1 sock1 where left: "left = (st1, sock1)"
    by (cases left)
  have "state_ok (fst left)"
    unfolding left_def using assms leaveRoom_ok by (simp split: option.split)
  then have "state_ok st1"
    by (simp add: left)
  then have "state_ok (st1 \<lparr> activeRooms := drop_spectator (socket_id sock) (activeRooms st1) \<rparr>)"
    by (simp add: state_ok_def drop_spectator_ok)
  then show ?thesis
    unfolding handleDisconnect_def left_def [symmetric] left by simp
qed

lemma handleChatMessage_ok:
  assumes "state_ok st"
  shows "state_ok (handleChatMessage e st sock msg rid)"
proof (cases "map_of (activeRooms st) rid")
  case None
  with assms show ?thesis
    by (simp add: handleChatMessage_def Let_def state_ok_emit)
next
  case (Some r)
  have "room_ok (r \<lparr> chatHistory := x \<rparr>)" for x
    using state_ok_room [OF assms Some] by (simp add: room_ok_def)
  with Some assms show ?thesis
    by (auto simp: handleChatMessage_def Let_def state_ok_def intro!: list_all_update)
qed

lemma fold_delete_db_activeRooms:
  "activeRooms (fold (deleteRoomFromDatabase e) ks st) = activeRooms st"
  by (induction ks arbitrary: st) auto

lemma fold_delete_db_rows:
  "list_all P (db_rooms st) \<Longrightarrow> list_all P (db_rooms (fold (deleteRoomFromDatabase e) ks st))"
proof (induction ks arbitrary: st)
  case Nil
  then show ?case by simp
next
  case (Cons k ks)
  have "list_all P (db_rooms (deleteRoomFromDatabase e k st))"
    using Cons.prems by (auto intro!: list_all_delete)
  then show ?case
    using Cons.IH by simp
qed

lemma cleanupEmptyRooms_ok:
  assumes "state_ok st"
  shows "state_ok (cleanupEmptyRooms e st)"
proof -
  have "list_all (\<lambda>(rid, r). room_ok r) (filter P (activeRooms st))" for P
    using assms by (auto simp: state_ok_def list_all_iff)
  moreover have "list_all (\<lambda>(rid, row). 0 \<le> row_max_players row)
      (db_rooms (fold (deleteRoomFromDatabase e) ks (st \<lparr> activeRooms := x \<rparr>)))" for ks x
    using assms by (intro fold_delete_db_rows) (simp add: state_ok_def)
  ultimately show ?thesis
    by (simp add: cleanupEmptyRooms_def Let_def state_ok_def fold_delete_db_activeRooms)
qed

text \<open>
  Every reachable state is in order.
\<close>

lemma reachable_ok: "reachable_in_turn st \<Longrightarrow> state_ok st"
proof (induction rule: reachable_in_turn.induct)
  case (start st)
  then show ?case by (simp add: initial_def state_ok_def)
next
  case (create st m e sock roomName priv pw)
  then show ?case by (simp add: createRoom_ok)
next
  case (join st e sock rid pname pw)
  then show ?case by (simp add: joinRoom_ok)
next
  case (leave st e sock rid)
  then show ?case by (simp add: leaveRoom_ok)
next
  case (disconnect st e sock)
  then show ?case by (simp add: handleDisconnect_ok)
next
  case (spectate st e sock rid)
  then show ?case by (simp add: spectateGame_ok)
next
  case (chat st e sock msg rid)
  then show ?case by (simp add: handleChatMessage_ok)
next
  case (cleanup st e)
  then show ?case by (simp add: cleanupEmptyRooms_ok)
qed

lemma checkGameStart_fields [simp]:
  "activeRooms (snd (checkGameStart e st rid r)) =
     (if currentPlayers r = 2 \<and> room_status r = ''waiting''
      then AList.update rid (r \<lparr> room_status := ''playing'' \<rparr>) (activeRooms st)
      else activeRooms st)"
  "playerRooms (snd (checkGameStart e st rid r)) = playerRooms st"
  by (simp_all add: checkGameStart_def Let_def)

lemma leaveRoom_fields:
  "map_of (activeRooms (fst (leaveRoom e st sock cur))) cur =
     (case map_of (activeRooms st) cur of
        None \<Rightarrow> None
      | Some rc \<Rightarrow>
          if AList.delete (player_id_of sock) (room_players rc) = [] then None
          else Some (rc \<lparr> room_players := AList.delete (player_id_of sock) (room_players rc),
                         currentPlayers := length (AList.delete (player_id_of sock) (room_players rc)) \<rparr>))"
  "k \<noteq> cur \<Longrightarrow> map_of (activeRooms (fst (leaveRoom e st sock cur))) k = map_of (activeRooms st) k"
  by (auto simp: leaveRoom_def Let_def update_conv' delete_conv' split: option.split)

lemma leaveRoom_not_member:
  assumes "map_of (activeRooms (fst (leaveRoom e st sock cur))) cur = Some rc"
  shows "map_of (room_players rc) (player_id_of sock) = None"
  using assms
  by (auto simp: leaveRoom_fields(1) delete_conv' split: option.splits if_splits)

lemma joinRoom_full:
  assumes "map_of (activeRooms st) rid = Some r" and "int (currentPlayers r) \<ge> maxPlayers r"
  shows "joinRoom e st sock rid pname pw = (room_error sock ''ROOM_FULL'' st, sock)"
  using assms by (simp add: joinRoom_def)

lemma joinRoom_accepted:
  fixes e st sock rid pname pw r
  defines "pid \<equiv> player_id_of sock"
  defines "reloc \<equiv>
       (case map_of (playerRooms st) pid of
          None \<Rightarrow> (st, sock)
        | Some currentRoom \<Rightarrow>
            if currentRoom \<noteq> [] \<and> currentRoom \<noteq> rid
            then leaveRoom e st sock currentRoom
            else (st, sock))"
  defines "r1 \<equiv> r \<lparr> room_players := AList.update pid
                        \<lparr> rp_id = pid, rp_name = pname, rp_socketId = socket_id sock,
                          joinedAt = env_now e, isReady = False \<rparr> (room_players r),
                    currentPlayers := length (AList.update pid
                        \<lparr> rp_id = pid, rp_name = pname, rp_socketId = socket_id sock,
                          joinedAt = env_now e, isReady = False \<rparr> (room_players r)) \<rparr>"
  assumes act: "map_of (activeRooms st) rid = Some r" and adm: "admits e r pw"
  shows "map_of (activeRooms (fst (joinRoom e st sock rid pname pw))) rid =
           Some (if currentPlayers r1 = 2 \<and> room_status r1 = ''waiting''
                 then r1 \<lparr> room_status := ''playing'' \<rparr> else r1)"
    and "k \<noteq> rid \<Longrightarrow> map_of (activeRooms (fst (joinRoom e st sock rid pname pw))) k
                         = map_of (activeRooms (fst reloc)) k"
    and "map_of (playerRooms (fst (joinRoom e st sock rid pname pw))) pid = Some rid"
proof -
  obtain st2 sock2 where reloc: "reloc = (st2, sock2)"
    by (cases reloc)
  let ?st6 = "emit (ToSocket (socket_id sock), ''room-joined'', RoomInfo rid (currentPlayers r1))
           (emit (ToRoom rid, ''player-joined'',
                  PlayerJoined pid (currentPlayers r1) (maxPlayers r1))
             (saveRoomToDatabase e r1
               (st2 \<lparr> activeRooms := AList.update rid r1 (activeRooms st2),
                       playerRooms := AList.update pid rid (playerRooms st2) \<rparr>)))"
  define started where "started =
         (if currentPlayers r1 = 2 \<and> room_status r1 = ''waiting''
          then checkGameStart e ?st6 rid r1 else (False, ?st6))"
  obtain threw st7 where cg: "started = (threw, st7)"
    by (cases started)
  have st7: "st7 = snd started"
    by (simp add: cg)
  have res: "fst (joinRoom e st sock rid pname pw) =
               (if threw then room_error sock ''JOIN_ROOM_ERROR'' st7 else broadcastRoomListUpdate st7)"
    unfolding joinRoom_def Let_def act option.case prod.case pid_def [symmetric]
      reloc_def [symmetric] r1_def [symmetric]
    using adm
    unfolding reloc prod.case started_def [symmetric] cg
    by (auto simp: admits_def)
  have rooms: "activeRooms st7 =
      (if currentPlayers r1 = 2 \<and> room_status r1 = ''waiting''
       then AList.update rid (r1 \<lparr> room_status := ''playing'' \<rparr>) (AList.update rid r1 (activeRooms st2))
       else AList.update rid r1 (activeRooms st2))"
    unfolding st7 started_def by simp
  have idx: "playerRooms st7 = AList.update pid rid (playerRooms st2)"
    unfolding st7 started_def by simp
  show "map_of (activeRooms (fst (joinRoom e st sock rid pname pw))) rid =
           Some (if currentPlayers r1 = 2 \<and> room_status r1 = ''waiting''
                 then r1 \<lparr> room_status := ''playing'' \<rparr> else r1)"
    unfolding res by (simp add: rooms update_conv')
  show "map_of (activeRooms (fst (joinRoom e st sock rid pname pw))) k
          = map_of (activeRooms (fst reloc)) k" if "k \<noteq> rid"
    unfolding res using that by (simp add: rooms update_conv' reloc)
  show "map_of (playerRooms (fst (joinRoom e st sock rid pname pw))) pid = Some rid"
    unfolding res by (simp add: idx update_conv')
qed

lemmas run_defs = alice_leaves_unsaved_def alice_reloads_def alice_creates_def bob_joins_def bob_leaves_def bob_leaves_again_def
  carol_creates_def alice_leaves_other_def alice_creates_again_def alice_leaves_def
  alice_returns_def dave_creates_def dave_joins_def

lemma initial_empty: "initial empty_controller"
  by (simp add: initial_def empty_controller_def)

lemma reachable_runs:
  "reachable_in_turn (fst alice_creates)" "reachable_in_turn (fst bob_joins)" "reachable_in_turn (fst bob_leaves)"
  "reachable_in_turn (fst alice_creates_again)" "reachable_in_turn (fst dave_creates)"
  unfolding run_defs
  by (intro reachable_in_turn.create reachable_in_turn.join reachable_in_turn.leave reachable_in_turn.start initial_empty;
      simp add: valid_maxPlayers_def)+

lemmas race_defs = alice_creates_private_def bob_goes_on_def carol_goes_on_def

text \<open>
  When nothing runs between the two halves of a join that waits for \<open>bcrypt.compare\<close>, the
  second half gives what the whole call gives.
\<close>

lemma joinRoom_after_compare_whole:
  assumes "waits_at_compare st rid pw"
  shows "joinRoom_after_compare e st sock rid pname = Some (joinRoom e st sock rid pname pw)"
proof -
  from assms obtain r where r: "map_of (activeRooms st) rid = Some r"
    and ok: "\<not> int (currentPlayers r) \<ge> maxPlayers r" "isPrivate r" "truthy (password r)" "truthy pw"
    by (auto simp: waits_at_compare_def split: option.splits)
  show ?thesis
    unfolding joinRoom_after_compare_def joinRoom_def Let_def r option.case prod.case
    using ok by simp
qed

text \<open>
  C8 as stated fails in three ways. Called one after the other: after Alice creates a
  room, Bob joins and Bob leaves, the room is \<open>playing\<close> with one member; after Alice
  creates a second room she is a member of two rooms at once. Overlapping: Bob's and
  Carol's joins of Alice's private room for two both pass the capacity test and wait for
  \<open>bcrypt.compare\<close>; when both have gone on the room has three members.
\<close>

theorem room_invariant_counterexample:
  "reachable_in_turn (fst bob_leaves)
   \<and> status_of (fst bob_leaves) ''room-a'' = Some ''playing''
   \<and> members (fst bob_leaves) ''room-a'' = Some [''alice'']
   \<and> reachable_in_turn (fst alice_creates_again)
   \<and> members (fst alice_creates_again) ''room-a'' = Some [''alice'']
   \<and> members (fst alice_creates_again) ''room-b'' = Some [''alice'']
   \<and> members (fst alice_creates_private) ''room-p'' = Some [''alice'']
   \<and> capacity_of (fst alice_creates_private) ''room-p'' = Some 2
   \<and> waits_at_compare (fst alice_creates_private) ''room-p'' (Some ''secret'')
   \<and> map_option (\<lambda>(st, sock). members st ''room-p'') bob_goes_on
        = Some (Some [''alice'', ''bob''])
   \<and> map_option (\<lambda>(st, sock). members st ''room-p'') carol_goes_on
        = Some (Some [''alice'', ''bob'', ''carol''])
   \<and> map_option (\<lambda>(st, sock). capacity_of st ''room-p'') carol_goes_on = Some (Some 2)"
proof -
  have "status_of (fst bob_leaves) ''room-a'' = Some ''playing''
     \<and> members (fst bob_leaves) ''room-a'' = Some [''alice'']
     \<and> members (fst alice_creates_again) ''room-a'' = Some [''alice'']
     \<and> members (fst alice_creates_again) ''room-b'' = Some [''alice'']"
    by code_simp
  moreover have "members (fst alice_creates_private) ''room-p'' = Some [''alice'']
     \<and> capacity_of (fst alice_creates_private) ''room-p'' = Some 2
     \<and> waits_at_compare (fst alice_creates_private) ''room-p'' (Some ''secret'')
     \<and> map_option (\<lambda>(st, sock). members st ''room-p'') bob_goes_on
          = Some (Some [''alice'', ''bob''])
     \<and> map_option (\<lambda>(st, sock). members st ''room-p'') carol_goes_on
          = Some (Some [''alice'', ''bob'', ''carol''])
     \<and> map_option (\<lambda>(st, sock). capacity_of st ''room-p'') carol_goes_on = Some (Some 2)"
    by code_simp
  ultimately show ?thesis
    using reachable_runs(3,4) by simp
qed

text \<open>
  C8, as amended. Take any state reached by calls of the operations of the controller
  that run one after the other, each to its end before the next starts. In it every
  active room has as many members as its counter says and no more than its capacity, and
  \<open>joinRoom\<close> on a full room sends \<open>room-error\<close> with code \<open>ROOM_FULL\<close> to the caller and
  changes nothing else. A join that a room admits makes the player a member; the room
  becomes \<open>playing\<close> when it was \<open>waiting\<close> and now has exactly two members, and keeps its
  status otherwise. If the index names another room for the player, the join first takes
  the player out of that room and then points the index to the new one.
\<close>

theorem reachable_rooms_respect_capacity:
  assumes "reachable_in_turn st"
  shows "(\<forall>rid r. map_of (activeRooms st) rid = Some r \<longrightarrow>
            currentPlayers r = length (room_players r)
            \<and> int (length (room_players r)) \<le> maxPlayers r)
       \<and> (\<forall>rid r. map_of (activeRooms st) rid = Some r \<and> int (currentPlayers r) \<ge> maxPlayers r \<longrightarrow>
            joinRoom e st sock rid pname pw =
              (st \<lparr> emitted := emitted st @
                       [(ToSocket (socket_id sock), ''room-error'', Code ''ROOM_FULL'')] \<rparr>, sock))
       \<and> (\<forall>rid r. map_of (activeRooms st) rid = Some r \<and> admits e r pw \<longrightarrow>
            (\<exists>r'. map_of (activeRooms (fst (joinRoom e st sock rid pname pw))) rid = Some r'
               \<and> map_of (room_players r') (player_id_of sock) \<noteq> None
               \<and> currentPlayers r' = length (room_players r')
               \<and> room_status r' = (if room_status r = ''waiting'' \<and> length (room_players r') = 2
                                   then ''playing'' else room_status r)))
       \<and> (\<forall>rid r cur. map_of (activeRooms st) rid = Some r \<and> admits e r pw
              \<and> map_of (playerRooms st) (player_id_of sock) = Some cur \<and> cur \<noteq> [] \<and> cur \<noteq> rid \<longrightarrow>
            map_of (playerRooms (fst (joinRoom e st sock rid pname pw))) (player_id_of sock) = Some rid
            \<and> (\<forall>rc. map_of (activeRooms (fst (joinRoom e st sock rid pname pw))) cur = Some rc \<longrightarrow>
                  map_of (room_players rc) (player_id_of sock) = None))"
proof (intro conjI allI impI)
  fix rid r
  assume "map_of (activeRooms st) rid = Some r"
  then have "room_ok r"
    using reachable_ok [OF assms] state_ok_room by blast
  then show "currentPlayers r = length (room_players r)"
    and "int (length (room_players r)) \<le> maxPlayers r"
    by (simp_all add: room_ok_def)
next
  fix rid r
  assume "map_of (activeRooms st) rid = Some r \<and> int (currentPlayers r) \<ge> maxPlayers r"
  then have "joinRoom e st sock rid pname pw = (room_error sock ''ROOM_FULL'' st, sock)"
    using joinRoom_full by blast
  then show "joinRoom e st sock rid pname pw =
              (st \<lparr> emitted := emitted st @
                       [(ToSocket (socket_id sock), ''room-error'', Code ''ROOM_FULL'')] \<rparr>, sock)"
    by (simp add: room_error_def emit_def)
next
  fix rid r
  assume a: "map_of (activeRooms st) rid = Some r \<and> admits e r pw"
  then have act: "map_of (activeRooms st) rid = Some r" and adm: "admits e r pw"
    by simp_all
  show "\<exists>r'. map_of (activeRooms (fst (joinRoom e st sock rid pname pw))) rid = Some r'
               \<and> map_of (room_players r') (player_id_of sock) \<noteq> None
               \<and> currentPlayers r' = length (room_players r')
               \<and> room_status r' = (if room_status r = ''waiting'' \<and> length (room_players r') = 2
                                   then ''playing'' else room_status r)"
    unfolding joinRoom_accepted(1) [OF act adm]
    by (auto simp: update_conv')
next
  fix rid r cur
  assume a: "map_of (activeRooms st) rid = Some r \<and> admits e r pw
              \<and> map_of (playerRooms st) (player_id_of sock) = Some cur \<and> cur \<noteq> [] \<and> cur \<noteq> rid"
  then have act: "map_of (activeRooms st) rid = Some r" and adm: "admits e r pw"
    and cur: "map_of (playerRooms st) (player_id_of sock) = Some cur" "cur \<noteq> []" "cur \<noteq> rid"
    by simp_all
  show "map_of (playerRooms (fst (joinRoom e st sock rid pname pw))) (player_id_of sock) = Some rid"
    by (rule joinRoom_accepted(3) [OF act adm])
  fix rc
  assume "map_of (activeRooms (fst (joinRoom e st sock rid pname pw))) cur = Some rc"
  then have "map_of (activeRooms (fst (leaveRoom e st sock cur))) cur = Some rc"
    unfolding joinRoom_accepted(2) [OF act adm cur(3)] using cur by simp
  then show "map_of (room_players rc) (player_id_of sock) = None"
    by (rule leaveRoom_not_member)
qed

text \<open>
  C8 as amended on two runs: Dave moves from his own room into Alice's, which starts
  the game; Carol is turned away from the full room of Alice and Bob.
\<close>

theorem reachable_rooms_respect_capacity_witness:
  "reachable_in_turn (fst dave_creates)
   \<and> members (fst dave_creates) ''room-a'' = Some [''alice'']
   \<and> status_of (fst dave_creates) ''room-a'' = Some ''waiting''
   \<and> map_of (playerRooms (fst dave_creates)) ''dave'' = Some ''room-d''
   \<and> members (fst dave_joins) ''room-a'' = Some [''alice'', ''dave'']
   \<and> status_of (fst dave_joins) ''room-a'' = Some ''playing''
   \<and> map_of (playerRooms (fst dave_joins)) ''dave'' = Some ''room-a''
   \<and> members (fst dave_joins) ''room-d'' = None
   \<and> reachable_in_turn (fst bob_joins)
   \<and> members (fst bob_joins) ''room-a'' = Some [''alice'', ''bob'']
   \<and> capacity_of (fst bob_joins) ''room-a'' = Some 2
   \<and> joinRoom (at_time 5 ''u5'') (fst bob_joins) (new_socket ''carol'') ''room-a'' ''Carol'' None
        = ((fst bob_joins) \<lparr> emitted := emitted (fst bob_joins) @
               [(ToSocket ''carol'', ''room-error'', Code ''ROOM_FULL'')] \<rparr>, new_socket ''carol'')"
proof -
  have facts: "members (fst dave_creates) ''room-a'' = Some [''alice'']
     \<and> status_of (fst dave_creates) ''room-a'' = Some ''waiting''
     \<and> map_of (playerRooms (fst dave_creates)) ''dave'' = Some ''room-d''
     \<and> members (fst dave_joins) ''room-a'' = Some [''alice'', ''dave'']
     \<and> status_of (fst dave_joins) ''room-a'' = Some ''playing''
     \<and> members (fst dave_joins) ''room-d'' = None
     \<and> members (fst bob_joins) ''room-a'' = Some [''alice'', ''bob'']
     \<and> capacity_of (fst bob_joins) ''room-a'' = Some 2"
    by code_simp
  obtain r where r: "map_of (activeRooms (fst bob_joins)) ''room-a'' = Some r"
    and full: "int (currentPlayers r) \<ge> maxPlayers r"
  proof -
    have "map_option (\<lambda>r. int (currentPlayers r) \<ge> maxPlayers r)
            (map_of (activeRooms (fst bob_joins)) ''room-a'') = Some True"
      by code_simp
    then show ?thesis using that by auto
  qed
  note full_case = reachable_rooms_respect_capacity [OF reachable_runs(2),
      of "at_time 5 ''u5''" "new_socket ''carol''" "''Carol''" None,
      THEN conjunct2, THEN conjunct1, rule_format, of "''room-a''" r]
  have sid: "socket_id (new_socket ''carol'') = ''carol''"
    by (simp add: new_socket_def)
  have carol: "joinRoom (at_time 5 ''u5'') (fst bob_joins) (new_socket ''carol'') ''room-a'' ''Carol'' None
        = ((fst bob_joins) \<lparr> emitted := emitted (fst bob_joins) @
               [(ToSocket ''carol'', ''room-error'', Code ''ROOM_FULL'')] \<rparr>, new_socket ''carol'')"
    using full_case [OF conjI [OF r full]] unfolding sid .
  obtain q where q: "map_of (activeRooms (fst dave_creates)) ''room-a'' = Some q"
    and adm: "admits (at_time 3 ''u3'') q None"
  proof -
    have "map_option (\<lambda>r. admits (at_time 3 ''u3'') r None)
            (map_of (activeRooms (fst dave_creates)) ''room-a'') = Some True"
      by code_simp
    then show ?thesis using that by auto
  qed
  have pid: "player_id_of (snd dave_creates) = ''dave''"
    by code_simp
  have idx: "map_of (playerRooms (fst dave_creates)) (player_id_of (snd dave_creates)) = Some ''room-d''"
    unfolding pid using facts by (elim conjE)
  have ne: "''room-d'' \<noteq> []" "''room-d'' \<noteq> ''room-a''"
    by simp_all
  note move_case = reachable_rooms_respect_capacity [OF reachable_runs(5),
      of "at_time 3 ''u3''" "snd dave_creates" "''Dave''" None,
      THEN conjunct2, THEN conjunct2, THEN conjunct2, rule_format, of "''room-a''" q "''room-d''",
      THEN conjunct1]
  have dave: "map_of (playerRooms (fst dave_joins)) ''dave'' = Some ''room-a''"
    unfolding dave_joins_def pid [symmetric]
    using q adm idx ne by (intro move_case conjI)
  from facts carol dave reachable_runs(2,5) show ?thesis
    by (elim conjE) (intro conjI)
qed

text \<open>
  C6, evaluated on the code. Bob has left \<open>room-a\<close>; his second \<open>leave-room\<close> for it
  broadcasts \<open>player-left\<close> to the room once more. Alice, a member of \<open>room-a\<close>, sends
  \<open>leave-room\<close> for Carol's \<open>room-c\<close>: \<open>player-left\<close> is broadcast to \<open>room-c\<close> and Alice's
  entry in the player index is deleted although she stays a member of \<open>room-a\<close>.
\<close>

theorem leaveRoom_nonmember_not_noop:
  "members (fst bob_leaves) ''room-a'' = Some [''alice'']
   \<and> map_of (playerRooms (fst bob_leaves)) ''bob'' = None
   \<and> player_id_of (snd bob_leaves) = ''bob''
   \<and> emitted (fst bob_leaves_again) = emitted (fst bob_leaves) @
        [(ToRoom ''room-a'', ''player-left'', PlayerLeft ''bob'' (Some ''Bob'') 1),
         (ToAll, ''room-list-update'', RoomList [])]
   \<and> members (fst carol_creates) ''room-c'' = Some [''carol'']
   \<and> members (fst carol_creates) ''room-a'' = Some [''alice'', ''bob'']
   \<and> map_of (playerRooms (fst carol_creates)) ''alice'' = Some ''room-a''
   \<and> player_id_of (snd alice_creates) = ''alice''
   \<and> map_of (playerRooms (fst alice_leaves_other)) ''alice'' = None
   \<and> members (fst alice_leaves_other) ''room-a'' = Some [''alice'', ''bob'']
   \<and> emitted (fst alice_leaves_other) = emitted (fst carol_creates) @
        [(ToRoom ''room-c'', ''player-left'', PlayerLeft ''alice'' (Some ''Player_alice'') 1),
         (ToAll, ''room-list-update'', RoomList [''room-c''])]"
  by code_simp

text \<open>
  C9 as stated fails when Alice leaves the room she is alone in: the room is gone from
  the map and from storage at once, and her attempt to rejoin one second later is answered
  with \<open>ROOM_NOT_FOUND\<close>.
\<close>

theorem leaveRoom_deletes_at_once_counterexample:
  "members (fst alice_creates) ''room-a'' = Some [''alice'']
   \<and> map_of (activeRooms (fst alice_leaves)) ''room-a'' = None
   \<and> map_of (db_rooms (fst alice_leaves)) ''room-a'' = None
   \<and> env_now (at_time 3 ''u3'') - env_now (at_time 2 ''u2'') < 5 * 60 * 1000
   \<and> emitted (fst alice_returns) = emitted (fst alice_leaves) @
        [(ToSocket ''alice'', ''room-error'', Code ''ROOM_NOT_FOUND'')]"
  by code_simp

lemma joinRoom_not_found:
  assumes "map_of (activeRooms st) rid = None"
    and "map_of (db_rooms st) rid = None \<or> \<not> env_db_up e"
  shows "joinRoom e st sock rid pname pw = (room_error sock ''ROOM_NOT_FOUND'' st, sock)"
  using assms by (auto simp: joinRoom_def loadRoomFromDatabase_def)

lemma joinRoom_refused:
  assumes "map_of (activeRooms st) rid = Some r" and "\<not> admits e r pw"
  shows "activeRooms (fst (joinRoom e st sock rid pname pw)) = activeRooms st"
  using assms by (auto simp: joinRoom_def admits_def Let_def)

lemma joinRoom_keeps_active:
  assumes "map_of (activeRooms st) rid = Some r"
  shows "map_of (activeRooms (fst (joinRoom e st sock rid pname pw))) rid \<noteq> None"
proof (cases "admits e r pw")
  case True
  show ?thesis
    unfolding joinRoom_accepted(1) [OF assms True] by simp
next
  case False
  show ?thesis
    unfolding joinRoom_refused [OF assms False] using assms by simp
qed

lemma joinRoom_loaded:
  assumes "map_of (activeRooms st) rid = None" and "loadRoomFromDatabase e rid st = Some r"
  shows "joinRoom e st sock rid pname pw =
           joinRoom e (st \<lparr> activeRooms := AList.update rid r (activeRooms st) \<rparr>) sock rid pname pw"
  using assms by (simp add: joinRoom_def update_conv')

lemma joinRoom_reloads:
  assumes "map_of (activeRooms st) rid = None" and "map_of (db_rooms st) rid \<noteq> None"
    and "env_db_up e"
  shows "map_of (activeRooms (fst (joinRoom e st sock rid pname pw))) rid \<noteq> None"
proof -
  from assms(2,3) obtain r where r: "loadRoomFromDatabase e rid st = Some r"
    by (auto simp: loadRoomFromDatabase_def)
  have "map_of (activeRooms (st \<lparr> activeRooms := AList.update rid r (activeRooms st) \<rparr>)) rid = Some r"
    by (simp add: update_conv')
  then show ?thesis
    unfolding joinRoom_loaded [OF assms(1) r] by (rule joinRoom_keeps_active)
qed

text \<open>
  C9, as amended. When \<open>leaveRoom\<close> takes the last member out of an active room, that very
  call removes the room from the map. If its storage call succeeds the row of the room is
  removed as well; if it fails the rows stay as they were. A later join of that room id is
  answered with \<open>room-error\<close>, code \<open>ROOM_NOT_FOUND\<close>, and changes nothing else whenever no
  row of the room is left or storage cannot be read then; when a row is left and storage
  can be read, the join loads the room from the row and the room is active again.
\<close>

theorem leaveRoom_last_member_deletes_room:
  assumes "map_of (activeRooms st) rid = Some r"
    and "AList.delete (player_id_of sock) (room_players r) = []"
  shows "map_of (activeRooms (fst (leaveRoom e st sock rid))) rid = None
       \<and> (env_db_up e \<longrightarrow> map_of (db_rooms (fst (leaveRoom e st sock rid))) rid = None)
       \<and> (\<not> env_db_up e \<longrightarrow> db_rooms (fst (leaveRoom e st sock rid)) = db_rooms st)
       \<and> (map_of (db_rooms (fst (leaveRoom e st sock rid))) rid = None \<or> \<not> env_db_up e' \<longrightarrow>
            joinRoom e' (fst (leaveRoom e st sock rid)) sock' rid pname pw
              = ((fst (leaveRoom e st sock rid))
                   \<lparr> emitted := emitted (fst (leaveRoom e st sock rid)) @
                       [(ToSocket (socket_id sock'), ''room-error'', Code ''ROOM_NOT_FOUND'')] \<rparr>,
                 sock'))
       \<and> (map_of (db_rooms (fst (leaveRoom e st sock rid))) rid \<noteq> None \<and> env_db_up e' \<longrightarrow>
            map_of (activeRooms (fst (joinRoom e' (fst (leaveRoom e st sock rid)) sock' rid pname pw)))
              rid \<noteq> None)"
proof -
  let ?st = "fst (leaveRoom e st sock rid)"
  have a: "map_of (activeRooms ?st) rid = None"
    using assms(1,2) by (simp add: leaveRoom_fields(1))
  have b: "env_db_up e \<longrightarrow> map_of (db_rooms ?st) rid = None"
    using assms by (simp add: leaveRoom_def Let_def delete_conv')
  have c: "\<not> env_db_up e \<longrightarrow> db_rooms ?st = db_rooms st"
    using assms by (simp add: leaveRoom_def Let_def)
  have d: "map_of (db_rooms ?st) rid = None \<or> \<not> env_db_up e' \<longrightarrow>
            joinRoom e' ?st sock' rid pname pw
              = (?st \<lparr> emitted := emitted ?st @
                       [(ToSocket (socket_id sock'), ''room-error'', Code ''ROOM_NOT_FOUND'')] \<rparr>,
                 sock')"
    using joinRoom_not_found [OF a, of e' sock' pname pw]
    by (simp add: room_error_def emit_def)
  have f: "map_of (db_rooms ?st) rid \<noteq> None \<and> env_db_up e' \<longrightarrow>
            map_of (activeRooms (fst (joinRoom e' ?st sock' rid pname pw))) rid \<noteq> None"
    using joinRoom_reloads [OF a] by blast
  from a b c d f show ?thesis
    by (intro conjI)
qed

text \<open>
  C9 as amended at Alice's leaving and returning: with working storage she is told that
  the room is not found; when the storage call of her leaving fails, her return loads the
  room from its row and makes her its member again.
\<close>

theorem leaveRoom_last_member_deletes_room_witness:
  "map_option (\<lambda>r. AList.delete (player_id_of (snd alice_creates)) (room_players r))
      (map_of (activeRooms (fst alice_creates)) ''room-a'') = Some []
   \<and> env_db_up (at_time 2 ''u2'') \<and> env_db_up (at_time 3 ''u3'')
   \<and> map_of (activeRooms (fst alice_leaves)) ''room-a'' = None
   \<and> map_of (db_rooms (fst alice_leaves)) ''room-a'' = None
   \<and> alice_returns =
        ((fst alice_leaves) \<lparr> emitted := emitted (fst alice_leaves) @
              [(ToSocket ''alice'', ''room-error'', Code ''ROOM_NOT_FOUND'')] \<rparr>, snd alice_leaves)
   \<and> \<not> env_db_up ((at_time 2 ''u2'') \<lparr> env_db_up := False \<rparr>)
   \<and> map_of (activeRooms (fst alice_leaves_unsaved)) ''room-a'' = None
   \<and> db_rooms (fst alice_leaves_unsaved) = db_rooms (fst alice_creates)
   \<and> map_of (db_rooms (fst alice_leaves_unsaved)) ''room-a'' \<noteq> None
   \<and> map_of (activeRooms (fst alice_reloads)) ''room-a'' \<noteq> None
   \<and> members (fst alice_reloads) ''room-a'' = Some [''alice'']"
proof -
  have h: "map_option (\<lambda>r. AList.delete (player_id_of (snd alice_creates)) (room_players r))
      (map_of (activeRooms (fst alice_creates)) ''room-a'') = Some []"
    by code_simp
  then obtain r where r: "map_of (activeRooms (fst alice_creates)) ''room-a'' = Some r"
    and last: "AList.delete (player_id_of (snd alice_creates)) (room_players r) = []"
    by auto
  have up: "env_db_up (at_time 2 ''u2'')" "env_db_up (at_time 3 ''u3'')"
    and down: "\<not> env_db_up ((at_time 2 ''u2'') \<lparr> env_db_up := False \<rparr>)"
    by (simp_all add: at_time_def)
  have sid: "socket_id (snd alice_leaves) = ''alice''"
    by code_simp
  have row: "map_of (db_rooms (fst alice_creates)) ''room-a'' \<noteq> None"
    and mem: "members (fst alice_reloads) ''room-a'' = Some [''alice'']"
    by code_simp+
  note t = leaveRoom_last_member_deletes_room [OF r last,
      of "at_time 2 ''u2''" "at_time 3 ''u3''" "snd alice_leaves" "''Alice''" None,
      folded alice_leaves_def alice_returns_def]
  note u = leaveRoom_last_member_deletes_room [OF r last,
      of "(at_time 2 ''u2'') \<lparr> env_db_up := False \<rparr>" "at_time 3 ''u3''"
         "snd alice_leaves_unsaved" "''Alice''" None,
      folded alice_leaves_unsaved_def alice_reloads_def]
  from t up have t1: "map_of (activeRooms (fst alice_leaves)) ''room-a'' = None"
    and t2: "map_of (db_rooms (fst alice_leaves)) ''room-a'' = None"
    by simp_all
  from t t2 have t3: "alice_returns =
        ((fst alice_leaves) \<lparr> emitted := emitted (fst alice_leaves) @
              [(ToSocket ''alice'', ''room-error'', Code ''ROOM_NOT_FOUND'')] \<rparr>, snd alice_leaves)"
    unfolding sid alice_returns_def by blast
  from u have u1: "map_of (activeRooms (fst alice_leaves_unsaved)) ''room-a'' = None"
    by simp
  from u down have u2: "db_rooms (fst alice_leaves_unsaved) = db_rooms (fst alice_creates)"
    by blast
  have u3: "map_of (db_rooms (fst alice_leaves_unsaved)) ''room-a'' \<noteq> None"
    unfolding u2 by (rule row)
  from u u3 up(2) have u4: "map_of (activeRooms (fst alice_reloads)) ''room-a'' \<noteq> None"
    unfolding alice_reloads_def by blast
  from h up t1 t2 t3 down u1 u2 u3 u4 mem show ?thesis
    by (intro conjI)
qed

end
